theory Spec2Isabelle
  imports Complex_Main "HOL-Library.Word" "HOL-Library.AList"
begin

section \<open>Values\<close>

text \<open>
  A JavaScript string is a sequence of UTF-16 code units. \<open>js\<close> embeds an ASCII literal.
  A cell on the write path is one of the \<open>InputTypes\<close> of \<^verbatim>\<open>src/index.ts\<close>
  (\<^verbatim>\<open>boolean | string | number | null\<close>) or \<^verbatim>\<open>undefined\<close>, which
  \<^verbatim>\<open>normalizeInputData\<close> produces for a column that no key matches. Nothing in the
  program computes with a number, so its payload is carried as a real.
\<close>

type_synonym jsstring = "16 word list"

definition js :: "string \<Rightarrow> jsstring" where
  "js s = map of_char s"

datatype cell = Str jsstring | Number real | Boolean bool | Null | Undefined

section \<open>The default option values: \<^verbatim>\<open>trim\<close>, \<^verbatim>\<open>noChange\<close>, \<^verbatim>\<open>noFilter\<close>\<close>

text \<open>
  \<^verbatim>\<open>\s\<close> of a regular expression without the unicode flag, and the code units that
  \<^verbatim>\<open>String.prototype.trim\<close> strips: the WhiteSpace and LineTerminator code points of
  ECMAScript, all of them in the basic plane.
\<close>

definition is_space :: "16 word \<Rightarrow> bool" where
  "is_space c \<longleftrightarrow>
     c \<in> {0x0009, 0x000A, 0x000B, 0x000C, 0x000D, 0x0020, 0x00A0, 0x1680,
          0x2028, 0x2029, 0x202F, 0x205F, 0x3000, 0xFEFF}
     \<or> (0x2000 \<le> c \<and> c \<le> 0x200A)"

text \<open>
  \<^verbatim>\<open>arg.replace(/\s+/g, ' ')\<close>: scanning from the left, each maximal run of whitespace
  is one match of \<^verbatim>\<open>\s+\<close> and is replaced by one space; the scan goes on after the run.
\<close>

function replace_ws :: "jsstring \<Rightarrow> jsstring" where
  "replace_ws [] = []"
| "replace_ws (c # cs) =
     (if is_space c then 0x20 # replace_ws (dropWhile is_space cs)
      else c # replace_ws cs)"
  by pat_completeness auto
termination
  by (relation "measure length") (auto simp: length_dropWhile_le less_Suc_eq_le)

text \<open>\<^verbatim>\<open>String.prototype.trim\<close>: whitespace is removed from both ends.\<close>

definition js_trim :: "jsstring \<Rightarrow> jsstring" where
  "js_trim s = rev (dropWhile is_space (rev (dropWhile is_space s)))"

text \<open>
  \<^verbatim>\<open>trim\<close> (src/index.ts, lines 42 to 47): a string is rewritten, any other value is
  returned as it is.
\<close>

fun trim :: "cell \<Rightarrow> cell" where
  "trim (Str s) = Str (js_trim (replace_ws s))"
| "trim c = c"

definition noChange :: "jsstring \<Rightarrow> jsstring" where
  "noChange arg = arg"

text \<open>
  The words of the specification for the default sanitize function, as a second
  definition to compare \<open>trim\<close> with: the maximal runs of non-whitespace of the
  string (\<open>ws_words\<close>), joined by one space each (\<open>join_words\<close>).
\<close>

function ws_words :: "jsstring \<Rightarrow> jsstring list" where
  "ws_words [] = []"
| "ws_words (c # cs) =
     (if is_space c then ws_words cs
      else (c # takeWhile (\<lambda>d. \<not> is_space d) cs)
             # ws_words (dropWhile (\<lambda>d. \<not> is_space d) cs))"
  by pat_completeness auto
termination
  by (relation "measure length") (auto simp: length_dropWhile_le less_Suc_eq_le)

fun join_words :: "jsstring list \<Rightarrow> jsstring" where
  "join_words [] = []"
| "join_words [w] = w"
| "join_words (w # v # ws) = w @ 0x20 # join_words (v # ws)"

definition collapse_ws :: "jsstring \<Rightarrow> jsstring" where
  "collapse_ws s = join_words (ws_words s)"

section \<open>Options, the remote collaborator and the instance state\<close>

text \<open>
  The argument of the one \<^verbatim>\<open>filter\<close> function is a row array (in \<^verbatim>\<open>rows\<close>) or a row
  object (in \<^verbatim>\<open>data\<close>). A row object is the list of its own properties in insertion
  order. On the read path cells are strings (\<^verbatim>\<open>string[][]\<close>, \<^verbatim>\<open>RowArray\<close>,
  \<^verbatim>\<open>RowObject\<close>).
\<close>

type_synonym row_array = "jsstring list"
type_synonym row_object = "(jsstring \<times> jsstring) list"
type_synonym grid = "row_array list"

datatype filter_arg = ArrayRow row_array | ObjectRow row_object

text \<open>
  The fields of the class that come from \<^verbatim>\<open>GSheetOptions\<close>. \<open>headerRows\<close> is a
  JavaScript number; integral values are modelled. The three functions are total and
  depend on their first argument only (\<^verbatim>\<open>Array.prototype.map\<close> and
  \<^verbatim>\<open>filter\<close> also pass the index and the array, which the declared signatures do not
  take).
\<close>

record options =
  range_opt :: jsstring
  headerRows :: int
  keyTransform :: "jsstring \<Rightarrow> jsstring"
  sanitize :: "cell \<Rightarrow> cell"
  filter_opt :: "filter_arg \<Rightarrow> bool"

definition noFilter :: "filter_arg \<Rightarrow> bool" where
  "noFilter arg = True"

text \<open>
  The declared type of \<^verbatim>\<open>sanitize\<close>, \<^verbatim>\<open><T extends InputTypes>(arg: T) => string | T\<close>,
  gives a string for a string. \<open>sanitize_text\<close> is \<^verbatim>\<open>sanitize\<close> at a cell of the grid;
  \<open>text_of\<close> reads the string the type promises (its other equation is not reached by
  a function of the declared type).
\<close>

fun text_of :: "cell \<Rightarrow> jsstring" where
  "text_of (Str s) = s"
| "text_of c = []"

definition sanitize_text :: "options \<Rightarrow> jsstring \<Rightarrow> jsstring" where
  "sanitize_text opts s = text_of (sanitize opts (Str s))"

text \<open>
  What lies outside the repository: the two operations of the Sheets client that the
  code calls, and \<^verbatim>\<open>String.prototype.toLowerCase\<close>. A call that rejects (the client
  promise included) is \<open>GetRejected\<close> or \<open>AppendRejected\<close>; a response without
  \<^verbatim>\<open>data.values\<close> is \<open>GetResolved None\<close>; \<open>AppendResolved u\<close> carries
  \<^verbatim>\<open>response?.data?.updates?.updatedRows\<close>, \<open>None\<close> when a link of that chain is
  undefined.
\<close>

datatype get_outcome = GetRejected | GetResolved "grid option"

datatype append_outcome = AppendRejected | AppendResolved "int option"

record world =
  values_get :: "jsstring \<Rightarrow> get_outcome"
  values_append :: "jsstring \<Rightarrow> cell list \<Rightarrow> append_outcome"
  toLowerCase :: "jsstring \<Rightarrow> jsstring"

datatype call = ValuesGet jsstring | ValuesAppend jsstring "cell list"

datatype error = RemoteFailure | NoDataFound | HeaderRowEmpty int | FailedToSave

subsection \<open>The Keeper\<close>

text \<open>
  Modelled from the spec: the Keeper (\<^verbatim>\<open>keeper\<close> of the package
  \<^verbatim>\<open>@resolute/std/promise\<close>, with its \<^verbatim>\<open>get\<close>, \<^verbatim>\<open>stale\<close>, \<^verbatim>\<open>fresh\<close> and
  \<^verbatim>\<open>start\<close>), which src/index.ts imports and which is not among the sources.
  The operations below run one call to its end before the next one starts. A Keeper is
  then \<open>Empty\<close> or \<open>Settled\<close> between calls: \<^verbatim>\<open>Pending\<close> lasts only while a
  \<^verbatim>\<open>get\<close> awaits its producer. The timestamp of a settled value is left out.
\<close>

datatype 'a keeper = Empty | Settled 'a

text \<open>
  Modelled from the spec: \<^verbatim>\<open>stale()\<close> returns the settled value without invoking the
  producer, or fails (\<open>None\<close>) when nothing is settled.
\<close>

fun keeper_stale :: "'a keeper \<Rightarrow> 'a option" where
  "keeper_stale (Settled v) = Some v"
| "keeper_stale Empty = None"

text \<open>Modelled from the spec: \<^verbatim>\<open>fresh()\<close> resets the state to \<open>Empty\<close>.\<close>

definition keeper_fresh :: "'a keeper \<Rightarrow> 'a keeper" where
  "keeper_fresh k = Empty"

text \<open>
  Modelled from the spec: \<^verbatim>\<open>get()\<close> returns a settled value at once; on \<open>Empty\<close> it
  invokes the producer once, and the Keeper becomes \<open>Settled\<close> on success and \<open>Empty\<close>
  again on failure. The producer \<open>P\<close> works on the state \<open>s\<close> of the instance; \<open>rd\<close> and \<open>wr\<close>
  read and write the Keeper in that state.
\<close>

definition keeper_get ::
  "('s \<Rightarrow> (error + 'a) \<times> 's) \<Rightarrow> ('s \<Rightarrow> 'a keeper) \<Rightarrow> ('a keeper \<Rightarrow> 's \<Rightarrow> 's) \<Rightarrow> 's
     \<Rightarrow> (error + 'a) \<times> 's" where
  "keeper_get P rd wr s =
     (case rd s of
        Settled v \<Rightarrow> (Inr v, s)
      | Empty \<Rightarrow>
          (case P s of
             (Inr v, s') \<Rightarrow> (Inr v, wr (Settled v) s')
           | (Inl e, s') \<Rightarrow> (Inl e, wr Empty s')))"

text \<open>
  Modelled from the spec: one firing of the timer that \<^verbatim>\<open>start(interval)\<close> installs
  invokes the producer, replaces the settled value on success and leaves the state as it
  is on failure.
\<close>

definition keeper_tick ::
  "('s \<Rightarrow> (error + 'a) \<times> 's) \<Rightarrow> ('a keeper \<Rightarrow> 's \<Rightarrow> 's) \<Rightarrow> 's \<Rightarrow> 's" where
  "keeper_tick P wr s =
     (case P s of
        (Inr v, s') \<Rightarrow> wr (Settled v) s'
      | (Inl e, s') \<Rightarrow> s')"

subsection \<open>The instance\<close>

text \<open>
  The mutable part of a \<^verbatim>\<open>Gsheet\<close>: its two Keepers, and the log of the calls made to
  the remote collaborator, oldest first.
\<close>

record gsheet =
  keptSheet :: "grid keeper"
  keptColumns :: "jsstring list keeper"
  calls :: "call list"

definition set_keptSheet :: "grid keeper \<Rightarrow> gsheet \<Rightarrow> gsheet" where
  "set_keptSheet k s = s\<lparr>keptSheet := k\<rparr>"

definition set_keptColumns :: "jsstring list keeper \<Rightarrow> gsheet \<Rightarrow> gsheet" where
  "set_keptColumns k s = s\<lparr>keptColumns := k\<rparr>"

section \<open>The operations of \<^verbatim>\<open>Gsheet\<close> (src/index.ts)\<close>

text \<open>\<^verbatim>\<open>xs[i]\<close>: \<^verbatim>\<open>undefined\<close> (\<open>None\<close>) outside the array.\<close>

definition at_index :: "'a list \<Rightarrow> int \<Rightarrow> 'a option" where
  "at_index xs i = (if 0 \<le> i \<and> i < int (length xs) then Some (xs ! nat i) else None)"

text \<open>\<^verbatim>\<open>xs.slice(n)\<close>: a negative start counts from the end.\<close>

definition js_slice :: "int \<Rightarrow> 'a list \<Rightarrow> 'a list" where
  "js_slice n xs = (if 0 \<le> n then drop (nat n) xs else drop (nat (int (length xs) + n)) xs)"

text \<open>
  The decimal digits a template literal prints for an integral number (below
  \<^verbatim>\<open>1e21\<close> in magnitude, where JavaScript changes to the exponent form).
\<close>

function decimal :: "nat \<Rightarrow> jsstring" where
  "decimal n =
     (if n < 10 then [0x30 + of_nat n]
      else decimal (n div 10) @ [0x30 + of_nat (n mod 10)])"
  by pat_completeness auto
termination
  by (relation "measure id") auto

declare decimal.simps [simp del]

definition number_toString :: "int \<Rightarrow> jsstring" where
  "number_toString n = (if n < 0 then 0x2D # decimal (nat (- n)) else decimal (nat n))"

text \<open>\<^verbatim>\<open>`${this.range}!A${this.headerRows}:ZZZ${this.headerRows}`\<close>\<close>

definition header_range :: "options \<Rightarrow> jsstring" where
  "header_range opts =
     range_opt opts @ js ''!A'' @ number_toString (headerRows opts)
       @ js '':ZZZ'' @ number_toString (headerRows opts)"

text \<open>\<^verbatim>\<open>getSheet(range)\<close>, lines 105 to 116.\<close>

definition getSheet :: "world \<Rightarrow> jsstring \<Rightarrow> gsheet \<Rightarrow> (error + grid) \<times> gsheet" where
  "getSheet w rng s =
     (let s' = s\<lparr>calls := calls s @ [ValuesGet rng]\<rparr> in
      case values_get w rng of
        GetRejected \<Rightarrow> (Inl RemoteFailure, s')
      | GetResolved None \<Rightarrow> (Inl NoDataFound, s')
      | GetResolved (Some g) \<Rightarrow> (Inr g, s'))"

text \<open>\<^verbatim>\<open>getHeaderRowsOnly()\<close>, lines 118 to 120.\<close>

definition getHeaderRowsOnly :: "world \<Rightarrow> options \<Rightarrow> gsheet \<Rightarrow> (error + grid) \<times> gsheet" where
  "getHeaderRowsOnly w opts s = getSheet w (header_range opts) s"

text \<open>\<^verbatim>\<open>getColumnsFromSheetCache()\<close>, lines 122 to 128.\<close>

definition getColumnsFromSheetCache ::
  "world \<Rightarrow> options \<Rightarrow> gsheet \<Rightarrow> (error + grid) \<times> gsheet" where
  "getColumnsFromSheetCache w opts s =
     (case keeper_stale (keptSheet s) of
        Some g \<Rightarrow> (Inr g, s)
      | None \<Rightarrow> getHeaderRowsOnly w opts s)"

text \<open>
  \<^verbatim>\<open>getColumns()\<close>, lines 129 to 136. \<open>extract_columns\<close> is its part after the
  \<^verbatim>\<open>await\<close>, lines 131 to 135: \<^verbatim>\<open>rows[this.headerRows - 1]\<close> must be there and must not
  be empty.
\<close>

definition extract_columns :: "options \<Rightarrow> grid \<Rightarrow> error + jsstring list" where
  "extract_columns opts rows =
     (case at_index rows (headerRows opts - 1) of
        None \<Rightarrow> Inl (HeaderRowEmpty (headerRows opts))
      | Some columns \<Rightarrow>
          if columns = [] then Inl (HeaderRowEmpty (headerRows opts))
          else Inr (map (keyTransform opts) (map (sanitize_text opts) columns)))"

definition getColumns ::
  "world \<Rightarrow> options \<Rightarrow> gsheet \<Rightarrow> (error + jsstring list) \<times> gsheet" where
  "getColumns w opts s =
     (case getColumnsFromSheetCache w opts s of
        (Inl e, s') \<Rightarrow> (Inl e, s')
      | (Inr rows, s') \<Rightarrow> (extract_columns opts rows, s'))"

text \<open>\<^verbatim>\<open>columns()\<close>, lines 138 to 140.\<close>

definition columns ::
  "world \<Rightarrow> options \<Rightarrow> gsheet \<Rightarrow> (error + jsstring list) \<times> gsheet" where
  "columns w opts s = keeper_get (getColumns w opts) keptColumns set_keptColumns s"

text \<open>\<^verbatim>\<open>rows()\<close>, lines 142 to 148.\<close>

definition rows :: "world \<Rightarrow> options \<Rightarrow> gsheet \<Rightarrow> (error + row_array list) \<times> gsheet" where
  "rows w opts s =
     (case keeper_get (getSheet w (range_opt opts)) keptSheet set_keptSheet s of
        (Inl e, s') \<Rightarrow> (Inl e, s')
      | (Inr g, s') \<Rightarrow>
          (Inr (filter (\<lambda>row. filter_opt opts (ArrayRow row))
                  (map (map (sanitize_text opts)) (js_slice (headerRows opts) g))), s'))"

text \<open>
  \<^verbatim>\<open>obj[key] = value\<close> on an object created by a literal, for a string value: an own
  property is set, except for the key \<^verbatim>\<open>__proto__\<close>, whose inherited setter ignores a
  value that is not an object.
\<close>

definition assign :: "jsstring \<Rightarrow> jsstring \<Rightarrow> row_object \<Rightarrow> row_object" where
  "assign k v obj = (if k = js ''__proto__'' then obj else AList.update k v obj)"

text \<open>
  The callback of \<^verbatim>\<open>row.reduce\<close> in \<^verbatim>\<open>data()\<close>, lines 159 to 165: \<open>i\<close> is the index of
  the first remaining cell. \<^verbatim>\<open>keys[index]\<close> is falsy when it is the empty string or when
  the index is outside \<^verbatim>\<open>keys\<close>.
\<close>

fun reduce_row :: "jsstring list \<Rightarrow> nat \<Rightarrow> row_array \<Rightarrow> row_object \<Rightarrow> row_object" where
  "reduce_row keys i [] obj = obj"
| "reduce_row keys i (v # vs) obj =
     reduce_row keys (Suc i) vs
       (case at_index keys (int i) of
          None \<Rightarrow> obj
        | Some k \<Rightarrow> if k \<noteq> [] then assign k v obj else obj)"

text \<open>\<^verbatim>\<open>data()\<close>, lines 150 to 168.\<close>

definition data :: "world \<Rightarrow> options \<Rightarrow> gsheet \<Rightarrow> (error + row_object list) \<times> gsheet" where
  "data w opts s =
     (case rows w opts s of
        (Inl e, s1) \<Rightarrow> (Inl e, s1)
      | (Inr rs, s1) \<Rightarrow>
          (case columns w opts s1 of
             (Inl e, s2) \<Rightarrow> (Inl e, s2)
           | (Inr keys, s2) \<Rightarrow>
               (Inr (filter (\<lambda>obj. filter_opt opts (ObjectRow obj))
                       (map (\<lambda>row. reduce_row keys 0 row []) rs)), s2)))"

text \<open>
  The argument of \<^verbatim>\<open>append\<close>: an array, or an object given by its
  \<^verbatim>\<open>Object.entries\<close>.
\<close>

datatype input_row = InputRowArray "cell list" | InputRowObject "(jsstring \<times> cell) list"

text \<open>
  \<^verbatim>\<open>(entries.find(([entryKey]) => entryKey === key.toLowerCase()) || [])[1]\<close>: the value
  of the first entry whose key matches, \<^verbatim>\<open>undefined\<close> when there is none.
\<close>

definition find_entry :: "world \<Rightarrow> (jsstring \<times> cell) list \<Rightarrow> jsstring \<Rightarrow> cell" where
  "find_entry w entries key =
     (case find (\<lambda>(entryKey, val). entryKey = toLowerCase w key) entries of
        None \<Rightarrow> Undefined
      | Some (entryKey, val) \<Rightarrow> val)"

text \<open>\<^verbatim>\<open>normalizeInputData(arg)\<close>, lines 170 to 180.\<close>

definition normalizeInputData ::
  "world \<Rightarrow> options \<Rightarrow> input_row \<Rightarrow> gsheet \<Rightarrow> (error + cell list) \<times> gsheet" where
  "normalizeInputData w opts arg s =
     (case arg of
        InputRowArray row \<Rightarrow> (Inr row, s)
      | InputRowObject obj \<Rightarrow>
          (let entries = map (\<lambda>(key, val). (toLowerCase w key, val)) obj in
           case columns w opts s of
             (Inl e, s') \<Rightarrow> (Inl e, s')
           | (Inr cols, s') \<Rightarrow>
               (Inr (map (sanitize opts) (map (find_entry w entries) cols)), s')))"

text \<open>\<^verbatim>\<open>response?.data?.updates?.updatedRows! > 0\<close>\<close>

fun updated_some :: "int option \<Rightarrow> bool" where
  "updated_some None = False"
| "updated_some (Some n) = (0 < n)"

text \<open>
  \<^verbatim>\<open>append(arg)\<close>, lines 182 to 201, named \<open>append_row\<close> here. The row is always
  an array, so the test
  \<^verbatim>\<open>!row\<close> of line 184 never holds. The call is logged with the row handed to the
  client.
\<close>

definition append_row ::
  "world \<Rightarrow> options \<Rightarrow> input_row \<Rightarrow> gsheet \<Rightarrow> (error + int option) \<times> gsheet" where
  "append_row w opts arg s =
     (case normalizeInputData w opts arg s of
        (Inl e, s1) \<Rightarrow> (Inl e, s1)
      | (Inr row, s1) \<Rightarrow>
          (let s2 = s1\<lparr>calls := calls s1 @ [ValuesAppend (range_opt opts) row]\<rparr> in
           case values_append w (range_opt opts) row of
             AppendRejected \<Rightarrow> (Inl RemoteFailure, s2)
           | AppendResolved u \<Rightarrow>
               (let s3 = s2\<lparr>keptSheet := keeper_fresh (keptSheet s2)\<rparr> in
                if updated_some u then (Inr u, s3) else (Inl FailedToSave, s3))))"

text \<open>\<^verbatim>\<open>refresh()\<close>, lines 203 to 205.\<close>

definition refresh :: "gsheet \<Rightarrow> gsheet" where
  "refresh s = s\<lparr>keptSheet := keeper_fresh (keptSheet s)\<rparr>"

text \<open>
  One firing of the timer of \<^verbatim>\<open>keepFresh(interval)\<close>, lines 207 to 209, which starts the
  timer of the grid Keeper.
\<close>

definition keepFresh_tick :: "world \<Rightarrow> options \<Rightarrow> gsheet \<Rightarrow> gsheet" where
  "keepFresh_tick w opts s = keeper_tick (getSheet w (range_opt opts)) set_keptSheet s"

text \<open>
  The constructor, lines 73 to 103: both Keepers are new, and \<^verbatim>\<open>preload\<close> calls
  \<^verbatim>\<open>refresh()\<close>.
\<close>

definition new_gsheet :: "bool \<Rightarrow> gsheet" where
  "new_gsheet preload =
     (let s = \<lparr>keptSheet = Empty, keptColumns = Empty, calls = []\<rparr> in
      if preload then refresh s else s)"

text \<open>
  A history of an instance: the public methods called one after the other, and timer
  firings between them, each in the world it finds. The result of a call is dropped here.
\<close>

datatype action = CallColumns | CallRows | CallData | CallAppend input_row | CallRefresh | TimerTick

fun perform :: "options \<Rightarrow> world \<times> action \<Rightarrow> gsheet \<Rightarrow> gsheet" where
  "perform opts (w, CallColumns) s = snd (columns w opts s)"
| "perform opts (w, CallRows) s = snd (rows w opts s)"
| "perform opts (w, CallData) s = snd (data w opts s)"
| "perform opts (w, CallAppend arg) s = snd (append_row w opts arg s)"
| "perform opts (w, CallRefresh) s = refresh s"
| "perform opts (w, TimerTick) s = keepFresh_tick w opts s"

definition run :: "options \<Rightarrow> (world \<times> action) list \<Rightarrow> gsheet \<Rightarrow> gsheet" where
  "run opts history s = fold (perform opts) history s"

text \<open>The calls of a list that fetch the range \<open>rng\<close>.\<close>

definition fetches :: "jsstring \<Rightarrow> call list \<Rightarrow> nat" where
  "fetches rng cs = length (filter (\<lambda>c. c = ValuesGet rng) cs)"


section \<open>Reference definitions and example values\<close>


text \<open>Two notions used in the proofs about \<open>trim\<close>.\<close>

definition strip_end :: "jsstring \<Rightarrow> jsstring" where
  "strip_end s = rev (dropWhile is_space (rev s))"

definition good_words :: "jsstring list \<Rightarrow> bool" where
  "good_words ws \<longleftrightarrow> (\<forall>w\<in>set ws. w \<noteq> [] \<and> (\<forall>c\<in>set w. \<not> is_space c))"

text \<open>
  The option values the constructor takes when only the range is given (lines 91 to
  94), and a lower-casing that agrees with \<^verbatim>\<open>toLowerCase\<close> on ASCII strings.
\<close>

definition default_options :: "jsstring \<Rightarrow> options" where
  "default_options rng =
     \<lparr>range_opt = rng, headerRows = 1, keyTransform = noChange, sanitize = trim,
      filter_opt = noFilter\<rparr>"

definition ascii_lower :: "jsstring \<Rightarrow> jsstring" where
  "ascii_lower s = map (\<lambda>c. if 0x41 \<le> c \<and> c \<le> 0x5A then c + 0x20 else c) s"

text \<open>
  The sheet of the examples of the specification: a header row and two data rows. A fetch
  of the whole range returns the three rows, a fetch of the header range the first one;
  an append reports \<open>u\<close> as the number of updated rows.
\<close>

definition example_grid :: grid where
  "example_grid =
     [[js ''Name'', js ''Email''],
      [js ''Ada'', js ''ada@x.com''],
      [[], js ''b@x.com'']]"

definition example_world :: "int option \<Rightarrow> world" where
  "example_world u =
     \<lparr>values_get = (\<lambda>rng.
        if rng = js ''Sheet1'' then GetResolved (Some example_grid)
        else if rng = js ''Sheet1!A1:ZZZ1'' then GetResolved (Some (take 1 example_grid))
        else GetResolved None),
      values_append = (\<lambda>rng row. AppendResolved u),
      toLowerCase = ascii_lower\<rparr>"

text \<open>A world whose remote collaborator rejects every call.\<close>

definition offline_world :: world where
  "offline_world =
     \<lparr>values_get = (\<lambda>rng. GetRejected),
      values_append = (\<lambda>rng row. AppendRejected),
      toLowerCase = ascii_lower\<rparr>"

text \<open>
  An instance for the range \<^verbatim>\<open>Sheet1\<close> with the default options, just constructed, and
  the same instance after one call of \<open>rows\<close>, which settles its grid Keeper.
\<close>

definition example_options :: options where
  "example_options = default_options (js ''Sheet1'')"

definition settled_gsheet :: gsheet where
  "settled_gsheet = snd (rows (example_world None) example_options (new_gsheet False))"

text \<open>The example options with \<^verbatim>\<open>headerRows: 0\<close>.\<close>

definition no_header_options :: options where
  "no_header_options = example_options\<lparr>headerRows := 0\<rparr>"

text \<open>
  The number that a string of decimal digits denotes, to compare \<open>number_toString\<close>
  with.
\<close>

definition digits_value :: "jsstring \<Rightarrow> nat" where
  "digits_value ds = foldl (\<lambda>a d. 10 * a + (unat d - 48)) 0 ds"

text \<open>
  The example options with \<^verbatim>\<open>headerRows: 3\<close>, and a world in which a fetch of the
  header range of these options returns the one row of that range, the third row of the
  sheet.
\<close>

definition third_row_options :: options where
  "third_row_options = example_options\<lparr>headerRows := 3\<rparr>"

definition third_row_world :: world where
  "third_row_world =
     \<lparr>values_get = (\<lambda>rng.
        if rng = js ''Sheet1'' then GetResolved (Some example_grid)
        else if rng = js ''Sheet1!A3:ZZZ3'' then GetResolved (Some (drop 2 example_grid))
        else GetResolved None),
      values_append = (\<lambda>rng row. AppendResolved (Some 1)),
      toLowerCase = ascii_lower\<rparr>"

section \<open>The default sanitize function\<close>

lemma is_space_20: "is_space 0x20"
  by (simp add: is_space_def)

lemma strip_end_keep: "s \<noteq> [] \<Longrightarrow> \<not> is_space (last s) \<Longrightarrow> strip_end s = s"
  by (cases s rule: rev_cases) (simp_all add: strip_end_def)

lemma strip_end_append: "strip_end ys \<noteq> [] \<Longrightarrow> strip_end (xs @ ys) = xs @ strip_end ys"
  by (auto simp: strip_end_def dropWhile_append)

lemma strip_end_append_Nil: "strip_end ys = [] \<Longrightarrow> strip_end (xs @ ys) = strip_end xs"
  by (auto simp: strip_end_def dropWhile_append)

lemma strip_end_space_Nil: "strip_end t = [] \<Longrightarrow> strip_end (0x20 # t) = []"
  using strip_end_append_Nil [of t "[0x20]"] by (simp add: strip_end_def is_space_20)

lemma replace_ws_dropWhile:
  "dropWhile is_space (replace_ws s) = replace_ws (dropWhile is_space s)"
proof (induction s rule: replace_ws.induct)
  case 1
  show ?case by simp
next
  case (2 c cs)
  show ?case
  proof (cases "is_space c")
    case True
    have "dropWhile is_space (dropWhile is_space cs) = dropWhile is_space cs"
      by (rule dropWhile_idem)
    with True 2 show ?thesis by (simp add: is_space_20)
  next
    case False
    then show ?thesis by simp
  qed
qed

lemma replace_ws_word:
  "\<forall>c\<in>set w. \<not> is_space c \<Longrightarrow> replace_ws (w @ r) = w @ replace_ws r"
  by (induction w) simp_all

lemma replace_ws_space:
  "is_space d \<Longrightarrow> replace_ws (d # ds) = 0x20 # replace_ws (dropWhile is_space (d # ds))"
  by simp

lemma join_words_Cons:
  "join_words (w # ws) = (if ws = [] then w else w @ 0x20 # join_words ws)"
  by (cases ws) simp_all

lemma good_words_Cons:
  "good_words (w # ws) \<longleftrightarrow> w \<noteq> [] \<and> (\<forall>c\<in>set w. \<not> is_space c) \<and> good_words ws"
  by (auto simp: good_words_def)

lemma good_words_Nil: "good_words []"
  by (simp add: good_words_def)

lemma good_ws_words: "good_words (ws_words s)"
proof (induction s rule: ws_words.induct)
  case 1
  show ?case by (simp add: good_words_Nil)
next
  case (2 c cs)
  show ?case
  proof (cases "is_space c")
    case True
    with 2 show ?thesis by simp
  next
    case False
    have "\<forall>d\<in>set (takeWhile (\<lambda>d. \<not> is_space d) cs). \<not> is_space d"
      by (auto dest: set_takeWhileD)
    then show ?thesis using False 2(2) [OF False] by (simp add: good_words_Cons)
  qed
qed

lemma join_words_ends:
  "ws \<noteq> [] \<Longrightarrow> good_words ws \<Longrightarrow>
   join_words ws \<noteq> [] \<and> \<not> is_space (hd (join_words ws)) \<and> \<not> is_space (last (join_words ws))"
proof (induction ws rule: join_words.induct)
  case 1
  then show ?case by simp
next
  case (2 w)
  then have "w \<noteq> []" "\<forall>c\<in>set w. \<not> is_space c" by (simp_all add: good_words_Cons)
  then show ?case using hd_in_set last_in_set by auto
next
  case (3 w v ws)
  then have w: "w \<noteq> []" "\<forall>c\<in>set w. \<not> is_space c" and g: "good_words (v # ws)"
    by (simp_all add: good_words_Cons)
  have "\<not> is_space (hd w)" using w hd_in_set by blast
  then show ?case using 3(1) g w by simp
qed

lemma strip_end_word_rest:
  assumes w: "w \<noteq> []" "\<forall>d\<in>set w. \<not> is_space d"
    and r: "r = [] \<or> is_space (hd r)"
    and IH: "strip_end (replace_ws (dropWhile is_space r)) = join_words (ws_words r)"
  shows "strip_end (replace_ws (w @ r)) = join_words (w # ws_words r)"
proof -
  have rw: "replace_ws (w @ r) = w @ replace_ws r"
    by (rule replace_ws_word [OF w(2)])
  have wlast: "\<not> is_space (last w)"
    using w last_in_set by blast
  have keep: "strip_end w = w"
    by (rule strip_end_keep [OF w(1) wlast])
  show ?thesis
  proof (cases r)
    case Nil
    then show ?thesis unfolding rw using keep by simp
  next
    case (Cons d ds)
    then have d: "is_space d" using r by simp
    have rr: "replace_ws r = 0x20 # replace_ws (dropWhile is_space r)"
      unfolding Cons by (rule replace_ws_space [OF d])
    show ?thesis
    proof (cases "ws_words r = []")
      case True
      then have "strip_end (replace_ws (dropWhile is_space r)) = []" using IH by simp
      then have "strip_end (replace_ws r) = []"
        unfolding rr by (rule strip_end_space_Nil)
      then have "strip_end (w @ replace_ws r) = w"
        using strip_end_append_Nil [of "replace_ws r" w] keep by simp
      then show ?thesis unfolding rw using True by simp
    next
      case False
      have "join_words (ws_words r) \<noteq> []"
        using join_words_ends [OF False good_ws_words] by simp
      then have ne: "strip_end (replace_ws (dropWhile is_space r)) \<noteq> []"
        using IH by simp
      have "strip_end (replace_ws r) = 0x20 # join_words (ws_words r)"
        unfolding rr using strip_end_append [OF ne, of "[0x20]"] IH by simp
      then have "strip_end (w @ replace_ws r) = w @ 0x20 # join_words (ws_words r)"
        using strip_end_append [of "replace_ws r" w] by simp
      then show ?thesis unfolding rw using False by (simp add: join_words_Cons)
    qed
  qed
qed

lemma strip_end_replace_ws:
  "strip_end (replace_ws (dropWhile is_space s)) = join_words (ws_words s)"
proof (induction s rule: ws_words.induct)
  case 1
  show ?case by (simp add: strip_end_def)
next
  case (2 c cs)
  show ?case
  proof (cases "is_space c")
    case True
    with 2 show ?thesis by simp
  next
    case False
    define w where "w = c # takeWhile (\<lambda>d. \<not> is_space d) cs"
    define r where "r = dropWhile (\<lambda>d. \<not> is_space d) cs"
    have w: "w \<noteq> []" "\<forall>d\<in>set w. \<not> is_space d"
      using False by (auto simp: w_def dest: set_takeWhileD)
    have split: "c # cs = w @ r" by (simp add: w_def r_def)
    have r: "r = [] \<or> is_space (hd r)"
      using hd_dropWhile [of "\<lambda>d. \<not> is_space d" cs] by (auto simp: r_def)
    have IH: "strip_end (replace_ws (dropWhile is_space r)) = join_words (ws_words r)"
      using 2(2) [OF False] by (simp add: r_def)
    have words: "ws_words (c # cs) = w # ws_words r"
      using False by (simp add: w_def r_def)
    have "dropWhile is_space (c # cs) = c # cs" using False by simp
    then show ?thesis
      unfolding words using strip_end_word_rest [OF w r IH] split by simp
  qed
qed

lemma js_trim_replace_ws: "js_trim (replace_ws s) = collapse_ws s"
  using strip_end_replace_ws [of s]
  by (simp add: js_trim_def collapse_ws_def strip_end_def replace_ws_dropWhile)

lemma ws_words_word_space:
  "w \<noteq> [] \<Longrightarrow> \<forall>c\<in>set w. \<not> is_space c \<Longrightarrow> ws_words (w @ 0x20 # t) = w # ws_words t"
proof (cases w)
  case Nil
  assume "w \<noteq> []"
  with Nil show ?thesis by simp
next
  case (Cons c w')
  assume a: "\<forall>c\<in>set w. \<not> is_space c"
  then have tw: "takeWhile (\<lambda>d. \<not> is_space d) (w' @ 0x20 # t) = w'"
    using Cons by (simp add: takeWhile_append2 is_space_20)
  have dw: "dropWhile (\<lambda>d. \<not> is_space d) (w' @ 0x20 # t) = 0x20 # t"
    using a Cons by (simp add: dropWhile_append2 is_space_20)
  show ?thesis using a Cons tw dw by (simp add: is_space_20)
qed

lemma ws_words_word: "w \<noteq> [] \<Longrightarrow> \<forall>c\<in>set w. \<not> is_space c \<Longrightarrow> ws_words w = [w]"
proof (cases w)
  case Nil
  assume "w \<noteq> []"
  with Nil show ?thesis by simp
next
  case (Cons c w')
  assume a: "\<forall>c\<in>set w. \<not> is_space c"
  then have tw: "takeWhile (\<lambda>d. \<not> is_space d) w' = w'"
    and dw: "dropWhile (\<lambda>d. \<not> is_space d) w' = []"
    using Cons by simp_all
  have "\<not> is_space c" using a Cons by simp
  then have "ws_words (c # w') = [c # w']" by (simp add: tw dw)
  then show ?thesis using Cons by simp
qed

lemma ws_words_join_words: "good_words ws \<Longrightarrow> ws_words (join_words ws) = ws"
proof (induction ws rule: join_words.induct)
  case 1
  show ?case by simp
next
  case (2 w)
  then show ?case by (simp add: good_words_Cons ws_words_word)
next
  case (3 w v ws)
  then have w: "w \<noteq> []" "\<forall>c\<in>set w. \<not> is_space c" and g: "good_words (v # ws)"
    by (simp_all add: good_words_Cons)
  show ?case using ws_words_word_space [OF w] 3(1) [OF g] by simp
qed

lemma join_words_isolated:
  "good_words ws \<Longrightarrow> join_words ws = xs @ c # ys \<Longrightarrow> is_space c \<Longrightarrow>
   c = 0x20 \<and> xs \<noteq> [] \<and> \<not> is_space (last xs) \<and> ys \<noteq> [] \<and> \<not> is_space (hd ys)"
proof (induction ws arbitrary: xs rule: join_words.induct)
  case 1
  then show ?case by simp
next
  case (2 w)
  then have "c \<in> set w" by simp
  with 2 show ?case by (simp add: good_words_Cons)
next
  case (3 w v ws)
  then have w: "w \<noteq> []" "\<forall>c\<in>set w. \<not> is_space c" and g: "good_words (v # ws)"
    by (simp_all add: good_words_Cons)
  let ?J = "join_words (v # ws)"
  have J: "?J \<noteq> []" "\<not> is_space (hd ?J)"
    using join_words_ends [OF _ g] by simp_all
  have eq: "w @ 0x20 # ?J = xs @ c # ys" using 3(3) by simp
  then consider (left) us where "w = xs @ us" "us @ 0x20 # ?J = c # ys"
    | (right) us where "w @ us = xs" "0x20 # ?J = us @ c # ys"
    by (auto simp: append_eq_append_conv2)
  then show ?case
  proof cases
    case left
    show ?thesis
    proof (cases us)
      case Nil
      with left have "c = 0x20" "ys = ?J" "xs = w" by simp_all
      then show ?thesis using w J last_in_set by auto
    next
      case (Cons u us')
      with left have "c \<in> set w" by simp
      with w 3(4) show ?thesis by blast
    qed
  next
    case right
    show ?thesis
    proof (cases us)
      case Nil
      with right have "c = 0x20" "ys = ?J" "xs = w" by simp_all
      then show ?thesis using w J last_in_set by auto
    next
      case (Cons u us')
      with right have j: "?J = us' @ c # ys" and xs: "xs = w @ 0x20 # us'" by simp_all
      have "c = 0x20 \<and> us' \<noteq> [] \<and> \<not> is_space (last us') \<and> ys \<noteq> [] \<and> \<not> is_space (hd ys)"
        using 3(1) [OF g j 3(4)] .
      then show ?thesis using xs by simp
    qed
  qed
qed

text \<open>
  C9. The default sanitize function \<open>trim\<close> turns a string into its words (the maximal runs
  of non-whitespace) joined by single spaces: the result neither starts nor ends with
  whitespace, every whitespace code unit left in it is one space between two
  non-whitespace code units, and its words are those of the argument; every value that
  is not a string is returned unchanged; and the string of the example becomes
  "multi space text".
\<close>

theorem trim_collapses_whitespace:
  "trim (Str s) = Str (collapse_ws s)
   \<and> (collapse_ws s = [] \<or>
        (\<not> is_space (hd (collapse_ws s)) \<and> \<not> is_space (last (collapse_ws s))))
   \<and> (\<forall>xs c ys. collapse_ws s = xs @ c # ys \<and> is_space c \<longrightarrow>
        c = 0x20 \<and> xs \<noteq> [] \<and> \<not> is_space (last xs) \<and> ys \<noteq> [] \<and> \<not> is_space (hd ys))
   \<and> ws_words (collapse_ws s) = ws_words s
   \<and> trim (Number x) = Number x \<and> trim (Boolean b) = Boolean b
   \<and> trim Null = Null \<and> trim Undefined = Undefined
   \<and> trim (Str (js ''  multi   space \<newline> text '')) = Str (js ''multi space text'')"
proof -
  have a: "trim (Str s) = Str (collapse_ws s)"
    by (simp add: js_trim_replace_ws)
  have b: "collapse_ws s = [] \<or>
        (\<not> is_space (hd (collapse_ws s)) \<and> \<not> is_space (last (collapse_ws s)))"
  proof (cases "ws_words s = []")
    case True
    then show ?thesis by (simp add: collapse_ws_def)
  next
    case False
    show ?thesis
      unfolding collapse_ws_def using join_words_ends [OF False good_ws_words] by simp
  qed
  have c: "\<forall>xs c ys. collapse_ws s = xs @ c # ys \<and> is_space c \<longrightarrow>
        c = 0x20 \<and> xs \<noteq> [] \<and> \<not> is_space (last xs) \<and> ys \<noteq> [] \<and> \<not> is_space (hd ys)"
    unfolding collapse_ws_def using join_words_isolated [OF good_ws_words] by blast
  have d: "ws_words (collapse_ws s) = ws_words s"
    unfolding collapse_ws_def by (rule ws_words_join_words [OF good_ws_words])
  have e: "trim (Str (js ''  multi   space \<newline> text '')) = Str (js ''multi space text'')"
    by (simp add: js_def js_trim_def is_space_def)
  have f: "trim (Number x) = Number x \<and> trim (Boolean b) = Boolean b
      \<and> trim Null = Null \<and> trim Undefined = Undefined"
    by simp
  from a b c d f e show ?thesis by blast
qed

theorem trim_collapses_whitespace_witness:
  "trim (Str (js '' a  b '')) = Str (js ''a b'')
   \<and> collapse_ws (js '' a  b '') = js ''a'' @ 0x20 # js ''b''
   \<and> is_space 0x20
   \<and> \<not> is_space (last (js ''a'')) \<and> \<not> is_space (hd (js ''b''))
   \<and> ws_words (js ''a b'') = ws_words (js '' a  b '')"
proof -
  note T = trim_collapses_whitespace [of "js '' a  b ''" 0 True]
  have t: "trim (Str (js '' a  b '')) = Str (js ''a b'')"
    by (simp add: js_def js_trim_def is_space_def)
  have e: "js ''a b'' = js ''a'' @ 0x20 # js ''b''"
    by (simp add: js_def)
  have "Str (collapse_ws (js '' a  b '')) = Str (js ''a b'')"
    using T [THEN conjunct1] t by (rule trans [OF sym])
  then have c: "collapse_ws (js '' a  b '') = js ''a'' @ 0x20 # js ''b''"
    unfolding e by (rule cell.inject(1) [THEN iffD1])
  have "(32 :: 16 word) = 0x20 \<and> js ''a'' \<noteq> [] \<and> \<not> is_space (last (js ''a''))
      \<and> js ''b'' \<noteq> [] \<and> \<not> is_space (hd (js ''b''))"
    by (rule T [THEN conjunct2, THEN conjunct2, THEN conjunct1, rule_format,
        OF conjI [OF c is_space_20]])
  then have i: "\<not> is_space (last (js ''a''))" "\<not> is_space (hd (js ''b''))"
    by blast+
  have "ws_words (collapse_ws (js '' a  b '')) = ws_words (js '' a  b '')"
    by (rule T [THEN conjunct2, THEN conjunct2, THEN conjunct2, THEN conjunct1])
  then have w: "ws_words (js ''a b'') = ws_words (js '' a  b '')"
    unfolding c e .
  from t c i w is_space_20 show ?thesis by (intro conjI)
qed

section \<open>Basic facts about the operations\<close>

lemma header_range_neq: "header_range opts \<noteq> range_opt opts"
  by (simp add: header_range_def js_def)

lemma fetches_append:
  "fetches rng (cs @ ds) = fetches rng cs + fetches rng ds"
  by (simp add: fetches_def)

lemma getSheet_snd: "snd (getSheet w rng s) = s\<lparr>calls := calls s @ [ValuesGet rng]\<rparr>"
  by (simp add: getSheet_def Let_def split: get_outcome.splits option.splits)

lemma getSheet_fst:
  "fst (getSheet w rng s) =
     (case values_get w rng of
        GetRejected \<Rightarrow> Inl RemoteFailure
      | GetResolved None \<Rightarrow> Inl NoDataFound
      | GetResolved (Some g) \<Rightarrow> Inr g)"
  by (simp add: getSheet_def Let_def split: get_outcome.splits option.splits)

lemma getColumns_settled:
  "keptSheet s = Settled g \<Longrightarrow> getColumns w opts s = (extract_columns opts g, s)"
  by (simp add: getColumns_def getColumnsFromSheetCache_def)

lemma getColumns_empty_snd:
  "keptSheet s = Empty \<Longrightarrow>
   snd (getColumns w opts s) = s\<lparr>calls := calls s @ [ValuesGet (header_range opts)]\<rparr>"
  using getSheet_snd [of w "header_range opts" s]
  by (auto simp: getColumns_def getColumnsFromSheetCache_def getHeaderRowsOnly_def
      split: prod.splits sum.splits)

lemma getColumns_empty_fst:
  "keptSheet s = Empty \<Longrightarrow>
   fst (getColumns w opts s) =
     (case fst (getSheet w (header_range opts) s) of
        Inl e \<Rightarrow> Inl e
      | Inr g \<Rightarrow> extract_columns opts g)"
  by (simp add: getColumns_def getColumnsFromSheetCache_def getHeaderRowsOnly_def
      split: prod.splits sum.splits)

lemma columns_settled: "keptColumns s = Settled cols \<Longrightarrow> columns w opts s = (Inr cols, s)"
  by (simp add: columns_def keeper_get_def)

lemma columns_empty:
  "keptColumns s = Empty \<Longrightarrow>
   columns w opts s =
     (fst (getColumns w opts s),
      (snd (getColumns w opts s))
        \<lparr>keptColumns := (case fst (getColumns w opts s) of Inl e \<Rightarrow> Empty | Inr v \<Rightarrow> Settled v)\<rparr>)"
  by (simp add: columns_def keeper_get_def set_keptColumns_def split: prod.splits sum.splits)

lemma getColumns_keptSheet: "keptSheet (snd (getColumns w opts s)) = keptSheet s"
  by (cases "keptSheet s") (simp_all add: getColumns_settled getColumns_empty_snd)

lemma getColumns_keptColumns: "keptColumns (snd (getColumns w opts s)) = keptColumns s"
  by (cases "keptSheet s") (simp_all add: getColumns_settled getColumns_empty_snd)

lemma getColumns_calls:
  "calls (snd (getColumns w opts s)) =
     (case keptSheet s of
        Settled g \<Rightarrow> calls s
      | Empty \<Rightarrow> calls s @ [ValuesGet (header_range opts)])"
  by (cases "keptSheet s") (simp_all add: getColumns_settled getColumns_empty_snd)

lemma columns_keptSheet: "keptSheet (snd (columns w opts s)) = keptSheet s"
  by (cases "keptColumns s") (simp_all add: columns_settled columns_empty getColumns_keptSheet)

lemma columns_calls:
  "calls (snd (columns w opts s)) =
     (case keptColumns s of
        Settled cols \<Rightarrow> calls s
      | Empty \<Rightarrow>
          (case keptSheet s of
             Settled g \<Rightarrow> calls s
           | Empty \<Rightarrow> calls s @ [ValuesGet (header_range opts)]))"
  by (cases "keptColumns s") (simp_all add: columns_settled columns_empty getColumns_calls)

lemma keeper_get_sheet_settled:
  "keptSheet s = Settled g \<Longrightarrow>
   keeper_get (getSheet w rng) keptSheet set_keptSheet s = (Inr g, s)"
  by (simp add: keeper_get_def)

lemma keeper_get_sheet_empty:
  "keptSheet s = Empty \<Longrightarrow>
   keeper_get (getSheet w rng) keptSheet set_keptSheet s =
     (fst (getSheet w rng s),
      s\<lparr>calls := calls s @ [ValuesGet rng],
        keptSheet := (case fst (getSheet w rng s) of Inl e \<Rightarrow> Empty | Inr g \<Rightarrow> Settled g)\<rparr>)"
  using getSheet_snd [of w rng s]
  by (auto simp: keeper_get_def set_keptSheet_def split: prod.splits sum.splits)

lemma rows_settled:
  "keptSheet s = Settled g \<Longrightarrow>
   rows w opts s =
     (Inr (filter (\<lambda>row. filter_opt opts (ArrayRow row))
             (map (map (sanitize_text opts)) (js_slice (headerRows opts) g))), s)"
  by (simp add: rows_def keeper_get_sheet_settled)

lemma rows_empty_snd:
  "keptSheet s = Empty \<Longrightarrow>
   snd (rows w opts s) =
     s\<lparr>calls := calls s @ [ValuesGet (range_opt opts)],
       keptSheet := (case fst (getSheet w (range_opt opts) s) of
                       Inl e \<Rightarrow> Empty | Inr g \<Rightarrow> Settled g)\<rparr>"
  by (simp add: rows_def keeper_get_sheet_empty split: sum.splits)

lemma rows_empty_fst:
  "keptSheet s = Empty \<Longrightarrow>
   fst (rows w opts s) =
     (case fst (getSheet w (range_opt opts) s) of
        Inl e \<Rightarrow> Inl e
      | Inr g \<Rightarrow>
          Inr (filter (\<lambda>row. filter_opt opts (ArrayRow row))
                 (map (map (sanitize_text opts)) (js_slice (headerRows opts) g))))"
  by (simp add: rows_def keeper_get_sheet_empty split: sum.splits)

lemma rows_keptColumns: "keptColumns (snd (rows w opts s)) = keptColumns s"
  by (cases "keptSheet s") (simp_all add: rows_settled rows_empty_snd)

lemma rows_calls:
  "calls (snd (rows w opts s)) =
     (case keptSheet s of
        Settled g \<Rightarrow> calls s
      | Empty \<Rightarrow> calls s @ [ValuesGet (range_opt opts)])"
  by (cases "keptSheet s") (simp_all add: rows_settled rows_empty_snd)

lemma rows_ok_settles:
  "rows w opts s = (Inr rs, s1) \<Longrightarrow> \<exists>g. keptSheet s1 = Settled g"
  by (cases "keptSheet s")
     (auto simp: rows_def keeper_get_sheet_settled keeper_get_sheet_empty split: sum.splits)

lemma data_snd:
  "snd (data w opts s) =
     (case rows w opts s of
        (Inl e, s1) \<Rightarrow> s1
      | (Inr rs, s1) \<Rightarrow> snd (columns w opts s1))"
  by (simp add: data_def split: prod.splits sum.splits)

lemma data_calls_empty:
  assumes "keptSheet s = Empty"
  shows "calls (snd (data w opts s)) = calls s @ [ValuesGet (range_opt opts)]"
proof -
  obtain r s1 where rs: "rows w opts s = (r, s1)" by (cases "rows w opts s")
  have c1: "calls s1 = calls s @ [ValuesGet (range_opt opts)]"
    using rows_calls [of w opts s] assms rs by simp
  have "calls (snd (data w opts s)) = calls s1"
  proof (cases r)
    case (Inl e)
    then show ?thesis using rs by (simp add: data_snd)
  next
    case (Inr rws)
    then obtain g where "keptSheet s1 = Settled g"
      using rows_ok_settles rs by blast
    then have "calls (snd (columns w opts s1)) = calls s1"
      by (simp add: columns_calls split: keeper.splits)
    then show ?thesis using rs Inr by (simp add: data_snd)
  qed
  then show ?thesis using c1 by simp
qed

lemma data_empty_resolved:
  assumes "keptSheet s = Empty" "values_get w (range_opt opts) = GetResolved (Some g)"
  shows "keptSheet (snd (data w opts s)) = Settled g"
    and "keptColumns s = Empty \<Longrightarrow>
         keptColumns (snd (data w opts s)) =
           (case extract_columns opts g of Inl e \<Rightarrow> Empty | Inr keys \<Rightarrow> Settled keys)"
    and "keptColumns s = Empty \<Longrightarrow>
         fst (data w opts s) =
           (case extract_columns opts g of
              Inl e \<Rightarrow> Inl e
            | Inr keys \<Rightarrow>
                Inr (filter (\<lambda>obj. filter_opt opts (ObjectRow obj))
                       (map (\<lambda>row. reduce_row keys 0 row [])
                          (filter (\<lambda>row. filter_opt opts (ArrayRow row))
                             (map (map (sanitize_text opts)) (js_slice (headerRows opts) g))))))"
proof -
  let ?s1 = "s\<lparr>calls := calls s @ [ValuesGet (range_opt opts)], keptSheet := Settled g\<rparr>"
  let ?rs = "filter (\<lambda>row. filter_opt opts (ArrayRow row))
      (map (map (sanitize_text opts)) (js_slice (headerRows opts) g))"
  have r: "rows w opts s = (Inr ?rs, ?s1)"
    using assms
    by (simp add: prod_eq_iff rows_empty_fst rows_empty_snd getSheet_fst)
  have k1: "keptSheet ?s1 = Settled g" by simp
  show "keptSheet (snd (data w opts s)) = Settled g"
    using r columns_keptSheet [of w opts ?s1] by (simp add: data_snd)
  {
    assume e: "keptColumns s = Empty"
    then have c: "columns w opts ?s1 =
        (extract_columns opts g,
         ?s1\<lparr>keptColumns := (case extract_columns opts g of
                               Inl e \<Rightarrow> Empty | Inr v \<Rightarrow> Settled v)\<rparr>)"
      by (simp add: columns_empty getColumns_settled [OF k1])
    show "keptColumns (snd (data w opts s)) =
           (case extract_columns opts g of Inl e \<Rightarrow> Empty | Inr keys \<Rightarrow> Settled keys)"
      using r c by (simp add: data_snd)
    show "fst (data w opts s) =
           (case extract_columns opts g of
              Inl e \<Rightarrow> Inl e
            | Inr keys \<Rightarrow>
                Inr (filter (\<lambda>obj. filter_opt opts (ObjectRow obj))
                       (map (\<lambda>row. reduce_row keys 0 row []) ?rs)))"
      using r c by (simp add: data_def split: sum.splits)
  }
qed

lemma data_empty_failed:
  assumes "keptSheet s = Empty"
  shows "values_get w (range_opt opts) = GetRejected \<Longrightarrow>
         data w opts s = (Inl RemoteFailure, s\<lparr>calls := calls s @ [ValuesGet (range_opt opts)]\<rparr>)"
    and "values_get w (range_opt opts) = GetResolved None \<Longrightarrow>
         data w opts s = (Inl NoDataFound, s\<lparr>calls := calls s @ [ValuesGet (range_opt opts)]\<rparr>)"
proof -
  have u: "s\<lparr>calls := calls s @ [ValuesGet (range_opt opts)], keptSheet := Empty\<rparr>
      = s\<lparr>calls := calls s @ [ValuesGet (range_opt opts)]\<rparr>"
    using assms by simp
  show "values_get w (range_opt opts) = GetRejected \<Longrightarrow>
         data w opts s = (Inl RemoteFailure, s\<lparr>calls := calls s @ [ValuesGet (range_opt opts)]\<rparr>)"
  proof -
    assume v: "values_get w (range_opt opts) = GetRejected"
    have "rows w opts s =
        (Inl RemoteFailure, s\<lparr>calls := calls s @ [ValuesGet (range_opt opts)]\<rparr>)"
      using assms v u by (simp add: prod_eq_iff rows_empty_fst rows_empty_snd getSheet_fst)
    then show ?thesis by (simp add: data_def)
  qed
  show "values_get w (range_opt opts) = GetResolved None \<Longrightarrow>
         data w opts s = (Inl NoDataFound, s\<lparr>calls := calls s @ [ValuesGet (range_opt opts)]\<rparr>)"
  proof -
    assume v: "values_get w (range_opt opts) = GetResolved None"
    have "rows w opts s =
        (Inl NoDataFound, s\<lparr>calls := calls s @ [ValuesGet (range_opt opts)]\<rparr>)"
      using assms v u by (simp add: prod_eq_iff rows_empty_fst rows_empty_snd getSheet_fst)
    then show ?thesis by (simp add: data_def)
  qed
qed

text \<open>
  C4. When the grid Keeper is Empty, one call of \<open>data\<close> makes exactly one call to the
  remote collaborator, the fetch of the whole range by \<open>rows\<close>; the number of fetches of
  the header range does not change, since \<open>columns\<close> runs after \<open>rows\<close> and finds the
  grid settled. When the fetch returns a grid, the grid Keeper is settled with it, and a
  columns Keeper that was Empty is settled by its producer from that same grid; the
  objects returned are built from the rows and the header row of that grid. When the
  fetch fails, \<open>data\<close> fails with the error of the fetch and both Keepers are as before.
\<close>

theorem data_one_grid_fetch:
  assumes "keptSheet s = Empty"
  shows "calls (snd (data w opts s)) = calls s @ [ValuesGet (range_opt opts)]
     \<and> fetches (range_opt opts) (calls (snd (data w opts s)))
         = fetches (range_opt opts) (calls s) + 1
     \<and> fetches (header_range opts) (calls (snd (data w opts s)))
         = fetches (header_range opts) (calls s)
     \<and> (\<forall>g. values_get w (range_opt opts) = GetResolved (Some g) \<longrightarrow>
           keptSheet (snd (data w opts s)) = Settled g
           \<and> (keptColumns s = Empty \<longrightarrow>
                keptColumns (snd (data w opts s)) =
                  (case extract_columns opts g of Inl e \<Rightarrow> Empty | Inr keys \<Rightarrow> Settled keys)
                \<and> fst (data w opts s) =
                  (case extract_columns opts g of
                     Inl e \<Rightarrow> Inl e
                   | Inr keys \<Rightarrow>
                       Inr (filter (\<lambda>obj. filter_opt opts (ObjectRow obj))
                              (map (\<lambda>row. reduce_row keys 0 row [])
                                 (filter (\<lambda>row. filter_opt opts (ArrayRow row))
                                    (map (map (sanitize_text opts))
                                       (js_slice (headerRows opts) g))))))))
     \<and> (values_get w (range_opt opts) = GetRejected \<longrightarrow>
           data w opts s
             = (Inl RemoteFailure, s\<lparr>calls := calls s @ [ValuesGet (range_opt opts)]\<rparr>))
     \<and> (values_get w (range_opt opts) = GetResolved None \<longrightarrow>
           data w opts s
             = (Inl NoDataFound, s\<lparr>calls := calls s @ [ValuesGet (range_opt opts)]\<rparr>))"
proof -
  have a: "calls (snd (data w opts s)) = calls s @ [ValuesGet (range_opt opts)]
     \<and> fetches (range_opt opts) (calls (snd (data w opts s)))
         = fetches (range_opt opts) (calls s) + 1
     \<and> fetches (header_range opts) (calls (snd (data w opts s)))
         = fetches (header_range opts) (calls s)"
    unfolding data_calls_empty [OF assms] using header_range_neq [of opts]
    by (simp add: fetches_def)
  have b: "\<forall>g. values_get w (range_opt opts) = GetResolved (Some g) \<longrightarrow>
           keptSheet (snd (data w opts s)) = Settled g
           \<and> (keptColumns s = Empty \<longrightarrow>
                keptColumns (snd (data w opts s)) =
                  (case extract_columns opts g of Inl e \<Rightarrow> Empty | Inr keys \<Rightarrow> Settled keys)
                \<and> fst (data w opts s) =
                  (case extract_columns opts g of
                     Inl e \<Rightarrow> Inl e
                   | Inr keys \<Rightarrow>
                       Inr (filter (\<lambda>obj. filter_opt opts (ObjectRow obj))
                              (map (\<lambda>row. reduce_row keys 0 row [])
                                 (filter (\<lambda>row. filter_opt opts (ArrayRow row))
                                    (map (map (sanitize_text opts))
                                       (js_slice (headerRows opts) g)))))))"
    using data_empty_resolved [OF assms] by blast
  have c: "values_get w (range_opt opts) = GetRejected \<longrightarrow>
           data w opts s
             = (Inl RemoteFailure, s\<lparr>calls := calls s @ [ValuesGet (range_opt opts)]\<rparr>)"
    using data_empty_failed(1) [OF assms] by blast
  have d: "values_get w (range_opt opts) = GetResolved None \<longrightarrow>
           data w opts s
             = (Inl NoDataFound, s\<lparr>calls := calls s @ [ValuesGet (range_opt opts)]\<rparr>)"
    using data_empty_failed(2) [OF assms] by blast
  from a b c d show ?thesis by (intro conjI) blast+
qed

section \<open>The header range and the header row\<close>

lemma digit_unat: "k < 10 \<Longrightarrow> unat (0x30 + of_nat k :: 16 word) = 48 + k"
  by (simp add: unat_word_ariths unat_of_nat)

lemma digits_value_snoc: "digits_value (ds @ [d]) = 10 * digits_value ds + (unat d - 48)"
  by (simp add: digits_value_def)

lemma decimal_small: "n < 10 \<Longrightarrow> decimal n = [0x30 + of_nat n]"
  by (simp add: decimal.simps)

lemma decimal_large:
  "\<not> n < 10 \<Longrightarrow> decimal n = decimal (n div 10) @ [0x30 + of_nat (n mod 10)]"
  by (subst decimal.simps) simp

lemma decimal_nonempty: "decimal n \<noteq> []"
  by (cases "n < 10") (simp_all add: decimal_small decimal_large)

lemma decimal_value: "digits_value (decimal n) = n"
proof (induction n rule: decimal.induct)
  case (1 n)
  show ?case
  proof (cases "n < 10")
    case True
    then show ?thesis by (simp add: decimal_small digits_value_def digit_unat)
  next
    case False
    have "digits_value (decimal n) = 10 * (n div 10) + n mod 10"
      using 1 [OF False] False
      by (simp add: decimal_large digits_value_snoc digit_unat)
    then show ?thesis by simp
  qed
qed

lemma digit_range: "k < 10 \<Longrightarrow> 0x30 \<le> (0x30 + of_nat k :: 16 word) \<and> (0x30 + of_nat k :: 16 word) \<le> 0x39"
  by (simp add: word_le_nat_alt digit_unat)

lemma decimal_digits: "d \<in> set (decimal n) \<Longrightarrow> 0x30 \<le> d \<and> d \<le> 0x39"
proof (induction n rule: decimal.induct)
  case (1 n)
  show ?case
  proof (cases "n < 10")
    case True
    then show ?thesis using 1(2) digit_range [of n] by (simp add: decimal_small)
  next
    case False
    then have "d \<in> set (decimal (n div 10)) \<or> d = 0x30 + of_nat (n mod 10)"
      using 1(2) by (auto simp: decimal_large)
    then show ?thesis
      using 1(1) [OF False] digit_range [of "n mod 10"] by auto
  qed
qed

lemma decimal_leading_zero: "hd (decimal n) = 0x30 \<Longrightarrow> n = 0"
proof (induction n rule: decimal.induct)
  case (1 n)
  show ?case
  proof (cases "n < 10")
    case True
    then have "unat (hd (decimal n)) = 48 + n" by (simp add: decimal_small digit_unat)
    then show ?thesis using 1(2) by simp
  next
    case False
    then have "hd (decimal n) = hd (decimal (n div 10))"
      by (simp add: decimal_large decimal_nonempty)
    then have "n div 10 = 0" using 1 False by simp
    then show ?thesis using False by simp
  qed
qed

lemma number_toString_nonneg:
  assumes "0 \<le> n"
  shows "digits_value (number_toString n) = nat n"
    and "number_toString n \<noteq> []"
    and "\<forall>d\<in>set (number_toString n). 0x30 \<le> d \<and> d \<le> 0x39"
    and "hd (number_toString n) = 0x30 \<longrightarrow> n = 0"
  using assms decimal_leading_zero [of "nat n"]
  by (auto simp: number_toString_def decimal_value decimal_nonempty dest: decimal_digits)

lemma number_toString_neg:
  "n < 0 \<Longrightarrow> number_toString n = 0x2D # number_toString (- n)"
  by (simp add: number_toString_def)

lemma extract_columns_explicit:
  "extract_columns opts grd =
     (if 1 \<le> headerRows opts \<and> headerRows opts \<le> int (length grd)
         \<and> grd ! nat (headerRows opts - 1) \<noteq> []
      then Inr (map (\<lambda>c. keyTransform opts (text_of (sanitize opts (Str c))))
                  (grd ! nat (headerRows opts - 1)))
      else Inl (HeaderRowEmpty (headerRows opts)))"
  by (auto simp: extract_columns_def at_index_def sanitize_text_def)

lemma getColumns_empty_fst_world:
  "keptSheet s = Empty \<Longrightarrow>
   fst (getColumns w opts s) =
     (case values_get w (header_range opts) of
        GetRejected \<Rightarrow> Inl RemoteFailure
      | GetResolved None \<Rightarrow> Inl NoDataFound
      | GetResolved (Some grd) \<Rightarrow> extract_columns opts grd)"
  by (simp add: getColumns_empty_fst getSheet_fst split: get_outcome.splits option.splits)

text \<open>
  C5. The producer of the columns Keeper, \<open>getColumns\<close>, reads the grid Keeper with
  \<open>stale\<close> first. With a settled grid it takes the header row from that grid and leaves
  the instance, its call log included, as it is. With an Empty grid Keeper it makes
  exactly one call, the fetch of the header range, and the grid Keeper stays Empty.
  \<open>columns\<close> invokes the producer when the columns Keeper is Empty, with the same effect,
  and settles the columns Keeper with the result of the producer; with a settled grid
  \<open>columns\<close> never makes a call. The header row is the row of the grid at the position
  \<open>headerRows\<close>, counted from one, each cell sanitized and then key-transformed; when
  the grid has no such row, or the row is empty, the producer fails. The header range is
  the configured range followed by \<^verbatim>\<open>!A\<close>, the decimal digits of \<open>headerRows\<close>,
  \<^verbatim>\<open>:ZZZ\<close> and the same digits again; it differs from the configured range.
\<close>

theorem columns_producer_reads_settled_grid:
  "(keptSheet s = Settled g \<longrightarrow>
      getColumns w opts s = (extract_columns opts g, s)
      \<and> calls (snd (columns w opts s)) = calls s
      \<and> (keptColumns s = Empty \<longrightarrow> fst (columns w opts s) = extract_columns opts g))
   \<and> (keptSheet s = Empty \<longrightarrow>
      snd (getColumns w opts s) = s\<lparr>calls := calls s @ [ValuesGet (header_range opts)]\<rparr>
      \<and> keptSheet (snd (getColumns w opts s)) = Empty
      \<and> (keptColumns s = Empty \<longrightarrow>
            calls (snd (columns w opts s)) = calls s @ [ValuesGet (header_range opts)]
            \<and> keptSheet (snd (columns w opts s)) = Empty))
   \<and> header_range opts \<noteq> range_opt opts
   \<and> (\<forall>grd. extract_columns opts grd =
         (if 1 \<le> headerRows opts \<and> headerRows opts \<le> int (length grd)
             \<and> grd ! nat (headerRows opts - 1) \<noteq> []
          then Inr (map (\<lambda>c. keyTransform opts (text_of (sanitize opts (Str c))))
                      (grd ! nat (headerRows opts - 1)))
          else Inl (HeaderRowEmpty (headerRows opts))))
   \<and> (\<forall>t. text_of (Str t) = t)
   \<and> header_range opts =
        range_opt opts @ [0x21, 0x41] @ number_toString (headerRows opts)
          @ [0x3A, 0x5A, 0x5A, 0x5A] @ number_toString (headerRows opts)
   \<and> (0 \<le> headerRows opts \<longrightarrow>
         digits_value (number_toString (headerRows opts)) = nat (headerRows opts)
         \<and> number_toString (headerRows opts) \<noteq> []
         \<and> (\<forall>d\<in>set (number_toString (headerRows opts)). 0x30 \<le> d \<and> d \<le> 0x39)
         \<and> (hd (number_toString (headerRows opts)) = 0x30 \<longrightarrow> headerRows opts = 0))
   \<and> (headerRows opts < 0 \<longrightarrow>
         number_toString (headerRows opts) = 0x2D # number_toString (- headerRows opts))
   \<and> (keptSheet s = Empty \<longrightarrow>
         fst (getColumns w opts s) =
           (case values_get w (header_range opts) of
              GetRejected \<Rightarrow> Inl RemoteFailure
            | GetResolved None \<Rightarrow> Inl NoDataFound
            | GetResolved (Some grd) \<Rightarrow> extract_columns opts grd))
   \<and> (keptColumns s = Empty \<longrightarrow>
         columns w opts s =
           (fst (getColumns w opts s),
            (snd (getColumns w opts s))
              \<lparr>keptColumns := (case fst (getColumns w opts s) of
                                 Inl e \<Rightarrow> Empty | Inr v \<Rightarrow> Settled v)\<rparr>))
   \<and> (\<forall>cols. keptColumns s = Settled cols \<longrightarrow> columns w opts s = (Inr cols, s))"
proof -
  have a: "keptSheet s = Settled g \<longrightarrow>
      getColumns w opts s = (extract_columns opts g, s)
      \<and> calls (snd (columns w opts s)) = calls s
      \<and> (keptColumns s = Empty \<longrightarrow> fst (columns w opts s) = extract_columns opts g)"
    by (simp add: getColumns_settled columns_calls columns_empty split: keeper.splits)
  have b: "keptSheet s = Empty \<longrightarrow>
      snd (getColumns w opts s) = s\<lparr>calls := calls s @ [ValuesGet (header_range opts)]\<rparr>
      \<and> keptSheet (snd (getColumns w opts s)) = Empty
      \<and> (keptColumns s = Empty \<longrightarrow>
            calls (snd (columns w opts s)) = calls s @ [ValuesGet (header_range opts)]
            \<and> keptSheet (snd (columns w opts s)) = Empty)"
    by (simp add: getColumns_empty_snd columns_calls columns_keptSheet)
  have c: "header_range opts \<noteq> range_opt opts"
    by (rule header_range_neq)
  have d: "\<forall>grd. extract_columns opts grd =
         (if 1 \<le> headerRows opts \<and> headerRows opts \<le> int (length grd)
             \<and> grd ! nat (headerRows opts - 1) \<noteq> []
          then Inr (map (\<lambda>c. keyTransform opts (text_of (sanitize opts (Str c))))
                      (grd ! nat (headerRows opts - 1)))
          else Inl (HeaderRowEmpty (headerRows opts)))"
    using extract_columns_explicit by blast
  have e: "\<forall>t. text_of (Str t) = t" by simp
  have f: "header_range opts =
        range_opt opts @ [0x21, 0x41] @ number_toString (headerRows opts)
          @ [0x3A, 0x5A, 0x5A, 0x5A] @ number_toString (headerRows opts)"
    by (simp add: header_range_def js_def)
  have h: "0 \<le> headerRows opts \<longrightarrow>
         digits_value (number_toString (headerRows opts)) = nat (headerRows opts)
         \<and> number_toString (headerRows opts) \<noteq> []
         \<and> (\<forall>d\<in>set (number_toString (headerRows opts)). 0x30 \<le> d \<and> d \<le> 0x39)
         \<and> (hd (number_toString (headerRows opts)) = 0x30 \<longrightarrow> headerRows opts = 0)"
    using number_toString_nonneg [of "headerRows opts"] by blast
  have i: "headerRows opts < 0 \<longrightarrow>
         number_toString (headerRows opts) = 0x2D # number_toString (- headerRows opts)"
    using number_toString_neg by blast
  have j: "keptSheet s = Empty \<longrightarrow>
         fst (getColumns w opts s) =
           (case values_get w (header_range opts) of
              GetRejected \<Rightarrow> Inl RemoteFailure
            | GetResolved None \<Rightarrow> Inl NoDataFound
            | GetResolved (Some grd) \<Rightarrow> extract_columns opts grd)"
    using getColumns_empty_fst_world by blast
  have k: "keptColumns s = Empty \<longrightarrow>
         columns w opts s =
           (fst (getColumns w opts s),
            (snd (getColumns w opts s))
              \<lparr>keptColumns := (case fst (getColumns w opts s) of
                                 Inl e \<Rightarrow> Empty | Inr v \<Rightarrow> Settled v)\<rparr>)"
    using columns_empty by blast
  have l: "\<forall>cols. keptColumns s = Settled cols \<longrightarrow> columns w opts s = (Inr cols, s)"
    using columns_settled by blast
  show ?thesis
    by (intro conjI) (rule a b c d e f h i j k l)+
qed

lemma js_neq_sheet: "js ''Sheet1!A1:ZZZ1'' \<noteq> js ''Sheet1''"
  by (simp add: js_def)

lemma example_header_range: "header_range example_options = js ''Sheet1!A1:ZZZ1''"
  by (simp add: header_range_def example_options_def default_options_def
      number_toString_def decimal.simps js_def)

lemma example_range: "range_opt example_options = js ''Sheet1''"
  by (simp add: example_options_def default_options_def)

lemma example_get_grid: "values_get (example_world u) (js ''Sheet1'') = GetResolved (Some example_grid)"
  by (simp add: example_world_def)

lemma example_get_header:
  "values_get (example_world u) (js ''Sheet1!A1:ZZZ1'')
     = GetResolved (Some [[js ''Name'', js ''Email'']])"
  using js_neq_sheet by (simp add: example_world_def example_grid_def)

lemma new_gsheet_False: "new_gsheet False = \<lparr>keptSheet = Empty, keptColumns = Empty, calls = []\<rparr>"
  by (simp add: new_gsheet_def)

lemma settled_gsheet_eq:
  "settled_gsheet =
     \<lparr>keptSheet = Settled example_grid, keptColumns = Empty, calls = [ValuesGet (js ''Sheet1'')]\<rparr>"
  by (simp add: settled_gsheet_def rows_empty_snd new_gsheet_False example_range
      getSheet_fst example_get_grid)

lemma trim_Name: "trim (Str (js ''Name'')) = Str (js ''Name'')"
  by (simp add: js_def js_trim_def is_space_def)

lemma trim_Email: "trim (Str (js ''Email'')) = Str (js ''Email'')"
  by (simp add: js_def js_trim_def is_space_def)

lemma example_extract:
  "extract_columns example_options ([js ''Name'', js ''Email''] # rest)
     = Inr [js ''Name'', js ''Email'']"
  using trim_Name trim_Email
  by (simp add: extract_columns_def example_options_def default_options_def at_index_def
      sanitize_text_def noChange_def)

theorem data_one_grid_fetch_witness:
  "keptSheet (new_gsheet False) = Empty
   \<and> calls (snd (data (example_world None) (default_options (js ''Sheet1'')) (new_gsheet False)))
       = [ValuesGet (js ''Sheet1'')]
   \<and> keptColumns (new_gsheet False) = Empty
   \<and> values_get (example_world None) (js ''Sheet1'') = GetResolved (Some example_grid)
   \<and> keptSheet (snd (data (example_world None) example_options (new_gsheet False)))
       = Settled example_grid
   \<and> keptColumns (snd (data (example_world None) example_options (new_gsheet False)))
       = Settled [js ''Name'', js ''Email'']
   \<and> values_get offline_world (js ''Sheet1'') = GetRejected
   \<and> data offline_world example_options (new_gsheet False)
       = (Inl RemoteFailure,
          \<lparr>keptSheet = Empty, keptColumns = Empty, calls = [ValuesGet (js ''Sheet1'')]\<rparr>)"
proof -
  note T = data_one_grid_fetch
  have n: "keptSheet (new_gsheet False) = Empty" "keptColumns (new_gsheet False) = Empty"
    by (simp_all add: new_gsheet_False)
  have a: "calls (snd (data (example_world None) (default_options (js ''Sheet1'')) (new_gsheet False)))
       = [ValuesGet (js ''Sheet1'')]"
    using T [OF n(1), of "example_world None" "default_options (js ''Sheet1'')", THEN conjunct1]
    by (simp add: new_gsheet_def default_options_def)
  have x: "extract_columns example_options example_grid = Inr [js ''Name'', js ''Email'']"
    unfolding example_grid_def by (rule example_extract)
  have v: "values_get (example_world None) (range_opt example_options)
      = GetResolved (Some example_grid)"
    by (simp add: example_range example_get_grid)
  note R = T [OF n(1), of "example_world None" example_options,
      THEN conjunct2, THEN conjunct2, THEN conjunct2, THEN conjunct1, rule_format, OF v]
  have b: "keptSheet (snd (data (example_world None) example_options (new_gsheet False)))
       = Settled example_grid"
    using R by blast
  have c: "keptColumns (snd (data (example_world None) example_options (new_gsheet False)))
       = Settled [js ''Name'', js ''Email'']"
    using R n(2) x by simp
  have o: "values_get offline_world (range_opt example_options) = GetRejected"
    by (simp add: offline_world_def)
  have d: "data offline_world example_options (new_gsheet False)
       = (Inl RemoteFailure,
          \<lparr>keptSheet = Empty, keptColumns = Empty, calls = [ValuesGet (js ''Sheet1'')]\<rparr>)"
    using T [OF n(1), of offline_world example_options,
      THEN conjunct2, THEN conjunct2, THEN conjunct2, THEN conjunct2, THEN conjunct1] o
    by (simp add: new_gsheet_False example_range)
  have v': "values_get (example_world None) (js ''Sheet1'') = GetResolved (Some example_grid)"
    by (rule example_get_grid)
  have o': "values_get offline_world (js ''Sheet1'') = GetRejected"
    by (simp add: offline_world_def)
  from n a v' b c o' d show ?thesis by (intro conjI)
qed

lemma third_row_options_simps:
  "headerRows third_row_options = 3"
  "range_opt third_row_options = js ''Sheet1''"
  "sanitize third_row_options = trim"
  "keyTransform third_row_options = noChange"
  "filter_opt third_row_options = noFilter"
  by (simp_all add: third_row_options_def example_options_def default_options_def)

lemma third_row_header_range: "header_range third_row_options = js ''Sheet1!A3:ZZZ3''"
  by (simp add: header_range_def third_row_options_simps number_toString_def decimal.simps js_def)

lemma third_row_get_header:
  "values_get third_row_world (js ''Sheet1!A3:ZZZ3'') = GetResolved (Some (drop 2 example_grid))"
proof -
  have "js ''Sheet1!A3:ZZZ3'' \<noteq> js ''Sheet1''" by (simp add: js_def)
  then show ?thesis by (simp add: third_row_world_def)
qed

lemma example_third_row:
  "map (\<lambda>c. noChange (text_of (trim (Str c)))) (example_grid ! 2) = [[], js ''b@x.com'']"
  by code_simp

lemma example_grid_shape:
  "length example_grid = 3" "example_grid ! 2 \<noteq> []" "length (drop 2 example_grid) = 1"
  by (simp_all add: example_grid_def)

lemma example_third_row_trimmed:
  "map (\<lambda>c. noChange (js_trim (replace_ws c))) (example_grid ! 2) = [[], js ''b@x.com'']"
  by code_simp

theorem columns_producer_reads_settled_grid_witness:
  "keptSheet settled_gsheet = Settled example_grid
   \<and> keptColumns settled_gsheet = Empty
   \<and> columns (example_world None) example_options settled_gsheet
       = (Inr [js ''Name'', js ''Email''],
          settled_gsheet\<lparr>keptColumns := Settled [js ''Name'', js ''Email'']\<rparr>)
   \<and> keptSheet (new_gsheet False) = Empty
   \<and> keptColumns (new_gsheet False) = Empty
   \<and> calls (snd (columns (example_world None) example_options (new_gsheet False)))
       = [ValuesGet (js ''Sheet1!A1:ZZZ1'')]
   \<and> keptSheet (snd (columns (example_world None) example_options (new_gsheet False))) = Empty
   \<and> headerRows third_row_options = 3
   \<and> header_range third_row_options = js ''Sheet1!A3:ZZZ3''
   \<and> columns third_row_world third_row_options settled_gsheet
       = (Inr [[], js ''b@x.com''],
          settled_gsheet\<lparr>keptColumns := Settled [[], js ''b@x.com'']\<rparr>)
   \<and> columns third_row_world third_row_options (new_gsheet False)
       = (Inl (HeaderRowEmpty 3),
          \<lparr>keptSheet = Empty, keptColumns = Empty,
           calls = [ValuesGet (js ''Sheet1!A3:ZZZ3'')]\<rparr>)"
proof -
  note A = columns_producer_reads_settled_grid
    [of settled_gsheet example_grid "example_world None" example_options]
  note B = columns_producer_reads_settled_grid
    [of "new_gsheet False" example_grid "example_world None" example_options]
  note S = columns_producer_reads_settled_grid
    [of settled_gsheet example_grid third_row_world third_row_options]
  note N = columns_producer_reads_settled_grid
    [of "new_gsheet False" example_grid third_row_world third_row_options]
  note Sa = S [THEN conjunct1]
  note Sd = S [THEN conjunct2, THEN conjunct2, THEN conjunct2, THEN conjunct1]
  note Sf = S [THEN conjunct2, THEN conjunct2, THEN conjunct2, THEN conjunct2,
      THEN conjunct2, THEN conjunct1]
  note Sk = S [THEN conjunct2, THEN conjunct2, THEN conjunct2, THEN conjunct2,
      THEN conjunct2, THEN conjunct2, THEN conjunct2, THEN conjunct2, THEN conjunct2,
      THEN conjunct1]
  note Nb = N [THEN conjunct2, THEN conjunct1]
  note Nj = N [THEN conjunct2, THEN conjunct2, THEN conjunct2, THEN conjunct2,
      THEN conjunct2, THEN conjunct2, THEN conjunct2, THEN conjunct2, THEN conjunct1]
  note Nk = N [THEN conjunct2, THEN conjunct2, THEN conjunct2, THEN conjunct2,
      THEN conjunct2, THEN conjunct2, THEN conjunct2, THEN conjunct2, THEN conjunct2,
      THEN conjunct1]
  have s: "keptSheet settled_gsheet = Settled example_grid" "keptColumns settled_gsheet = Empty"
    by (simp_all add: settled_gsheet_eq)
  have n: "keptSheet (new_gsheet False) = Empty" "keptColumns (new_gsheet False) = Empty"
    "calls (new_gsheet False) = []"
    by (simp_all add: new_gsheet_False)
  have x: "extract_columns example_options example_grid = Inr [js ''Name'', js ''Email'']"
    unfolding example_grid_def by (rule example_extract)
  have c: "columns (example_world None) example_options settled_gsheet
       = (Inr [js ''Name'', js ''Email''],
          settled_gsheet\<lparr>keptColumns := Settled [js ''Name'', js ''Email'']\<rparr>)"
    using A [THEN conjunct1] s x by (simp add: columns_empty)
  have b1: "calls (snd (columns (example_world None) example_options (new_gsheet False)))
       = [ValuesGet (js ''Sheet1!A1:ZZZ1'')]"
    and b2: "keptSheet (snd (columns (example_world None) example_options (new_gsheet False)))
       = Empty"
    using B [THEN conjunct2, THEN conjunct1] n by (simp_all add: example_header_range)
  have hr: "header_range third_row_options = js ''Sheet1!A3:ZZZ3''"
    using Sf by (simp add: third_row_options_simps number_toString_def decimal.simps js_def)
  have x3: "extract_columns third_row_options example_grid = Inr [[], js ''b@x.com'']"
    using Sd [rule_format, of example_grid]
    by (simp add: third_row_options_simps example_grid_shape example_third_row_trimmed)
  have x1: "extract_columns third_row_options (drop 2 example_grid) = Inl (HeaderRowEmpty 3)"
    using Sd [rule_format, of "drop 2 example_grid"]
    by (simp add: third_row_options_simps example_grid_shape)
  have g3: "getColumns third_row_world third_row_options settled_gsheet
      = (Inr [[], js ''b@x.com''], settled_gsheet)"
    using Sa s x3 by simp
  have c3: "columns third_row_world third_row_options settled_gsheet
       = (Inr [[], js ''b@x.com''],
          settled_gsheet\<lparr>keptColumns := Settled [[], js ''b@x.com'']\<rparr>)"
    using Sk s g3 by simp
  have f3: "fst (getColumns third_row_world third_row_options (new_gsheet False))
      = Inl (HeaderRowEmpty 3)"
    using Nj n by (simp add: hr third_row_get_header x1)
  have s3: "snd (getColumns third_row_world third_row_options (new_gsheet False))
      = \<lparr>keptSheet = Empty, keptColumns = Empty, calls = [ValuesGet (js ''Sheet1!A3:ZZZ3'')]\<rparr>"
    using Nb n by (simp add: hr new_gsheet_False)
  have n3: "columns third_row_world third_row_options (new_gsheet False)
       = (Inl (HeaderRowEmpty 3),
          \<lparr>keptSheet = Empty, keptColumns = Empty,
           calls = [ValuesGet (js ''Sheet1!A3:ZZZ3'')]\<rparr>)"
    using Nk n f3 s3 by simp
  from s c n(1,2) b1 b2 third_row_options_simps(1) hr c3 n3 show ?thesis
    by (intro conjI)
qed

section \<open>The write path\<close>

lemma normalize_array: "normalizeInputData w opts (InputRowArray row) s = (Inr row, s)"
  by (simp add: normalizeInputData_def)

lemma normalize_object:
  "normalizeInputData w opts (InputRowObject obj) s =
     (case columns w opts s of
        (Inl e, s') \<Rightarrow> (Inl e, s')
      | (Inr cols, s') \<Rightarrow>
          (Inr (map (sanitize opts)
                  (map (find_entry w (map (\<lambda>(key, val). (toLowerCase w key, val)) obj)) cols)),
           s'))"
  by (simp add: normalizeInputData_def)

lemma normalize_snd:
  "snd (normalizeInputData w opts arg s) =
     (case arg of InputRowArray row \<Rightarrow> s | InputRowObject obj \<Rightarrow> snd (columns w opts s))"
  by (cases arg) (simp_all add: normalize_array normalize_object split: prod.splits sum.splits)

lemma normalize_keptSheet: "keptSheet (snd (normalizeInputData w opts arg s)) = keptSheet s"
  by (cases arg) (simp_all add: normalize_snd columns_keptSheet)

lemma find_entry_lower:
  "find_entry w (map (\<lambda>(key, val). (toLowerCase w key, val)) obj) col =
     (case find (\<lambda>(key, val). toLowerCase w key = toLowerCase w col) obj of
        None \<Rightarrow> Undefined
      | Some (key, val) \<Rightarrow> val)"
  by (induction obj) (auto simp: find_entry_def)

lemma append_failed_input:
  "normalizeInputData w opts arg s = (Inl e, s1) \<Longrightarrow> append_row w opts arg s = (Inl e, s1)"
  by (simp add: append_row_def)

lemma append_rejected:
  "normalizeInputData w opts arg s = (Inr row, s1) \<Longrightarrow>
   values_append w (range_opt opts) row = AppendRejected \<Longrightarrow>
   append_row w opts arg s =
     (Inl RemoteFailure, s1\<lparr>calls := calls s1 @ [ValuesAppend (range_opt opts) row]\<rparr>)"
  by (simp add: append_row_def)

lemma append_resolved:
  "normalizeInputData w opts arg s = (Inr row, s1) \<Longrightarrow>
   values_append w (range_opt opts) row = AppendResolved u \<Longrightarrow>
   append_row w opts arg s =
     (if updated_some u then Inr u else Inl FailedToSave,
      s1\<lparr>calls := calls s1 @ [ValuesAppend (range_opt opts) row], keptSheet := Empty\<rparr>)"
  by (simp add: append_row_def keeper_fresh_def)

lemma append_calls:
  "normalizeInputData w opts arg s = (Inr row, s1) \<Longrightarrow>
   calls (snd (append_row w opts arg s)) = calls s1 @ [ValuesAppend (range_opt opts) row]"
  by (cases "values_append w (range_opt opts) row") (simp_all add: append_rejected append_resolved)

text \<open>
  C1, as amended. \<open>append_row\<close> resets the grid Keeper as soon as the remote call returns a
  response, before it looks at the number of updated rows: the grid Keeper is then Empty,
  whatever it was, and the next \<open>rows\<close> or \<open>data\<close> call fetches the whole range again;
  \<open>append_row\<close> succeeds when the response reports at least one updated row and raises an
  error otherwise. When the remote call is rejected, or when the row cannot be built
  because the columns cannot be resolved, \<open>append_row\<close> raises an error and the grid Keeper
  is as it was before the call.
\<close>

theorem append_resets_grid_on_response:
  "(normalizeInputData w opts arg s = (Inr row, s1)
      \<and> values_append w (range_opt opts) row = AppendResolved u \<longrightarrow>
        keptSheet (snd (append_row w opts arg s)) = Empty
      \<and> fst (append_row w opts arg s) = (if updated_some u then Inr u else Inl FailedToSave)
      \<and> calls (snd (rows w' opts (snd (append_row w opts arg s))))
          = calls (snd (append_row w opts arg s)) @ [ValuesGet (range_opt opts)]
      \<and> calls (snd (data w' opts (snd (append_row w opts arg s))))
          = calls (snd (append_row w opts arg s)) @ [ValuesGet (range_opt opts)])
   \<and> (normalizeInputData w opts arg s = (Inr row, s1)
      \<and> values_append w (range_opt opts) row = AppendRejected \<longrightarrow>
        fst (append_row w opts arg s) = Inl RemoteFailure
      \<and> keptSheet (snd (append_row w opts arg s)) = keptSheet s)
   \<and> (normalizeInputData w opts arg s = (Inl e, s1) \<longrightarrow>
        fst (append_row w opts arg s) = Inl e
      \<and> keptSheet (snd (append_row w opts arg s)) = keptSheet s)"
proof -
  have k: "normalizeInputData w opts arg s = (r, s1) \<Longrightarrow> keptSheet s1 = keptSheet s" for r
    using normalize_keptSheet [of w opts arg s] by simp
  have a: "normalizeInputData w opts arg s = (Inr row, s1)
      \<and> values_append w (range_opt opts) row = AppendResolved u \<longrightarrow>
        keptSheet (snd (append_row w opts arg s)) = Empty
      \<and> fst (append_row w opts arg s) = (if updated_some u then Inr u else Inl FailedToSave)
      \<and> calls (snd (rows w' opts (snd (append_row w opts arg s))))
          = calls (snd (append_row w opts arg s)) @ [ValuesGet (range_opt opts)]
      \<and> calls (snd (data w' opts (snd (append_row w opts arg s))))
          = calls (snd (append_row w opts arg s)) @ [ValuesGet (range_opt opts)]"
  proof
    assume h: "normalizeInputData w opts arg s = (Inr row, s1)
      \<and> values_append w (range_opt opts) row = AppendResolved u"
    then have e: "keptSheet (snd (append_row w opts arg s)) = Empty"
      by (simp add: append_resolved)
    have f: "fst (append_row w opts arg s) = (if updated_some u then Inr u else Inl FailedToSave)"
      using h by (simp add: append_resolved)
    have r: "calls (snd (rows w' opts (snd (append_row w opts arg s))))
          = calls (snd (append_row w opts arg s)) @ [ValuesGet (range_opt opts)]"
      using e by (simp add: rows_calls)
    have d: "calls (snd (data w' opts (snd (append_row w opts arg s))))
          = calls (snd (append_row w opts arg s)) @ [ValuesGet (range_opt opts)]"
      using data_calls_empty [OF e] .
    from e f r d show "keptSheet (snd (append_row w opts arg s)) = Empty
      \<and> fst (append_row w opts arg s) = (if updated_some u then Inr u else Inl FailedToSave)
      \<and> calls (snd (rows w' opts (snd (append_row w opts arg s))))
          = calls (snd (append_row w opts arg s)) @ [ValuesGet (range_opt opts)]
      \<and> calls (snd (data w' opts (snd (append_row w opts arg s))))
          = calls (snd (append_row w opts arg s)) @ [ValuesGet (range_opt opts)]"
      by blast
  qed
  have b: "normalizeInputData w opts arg s = (Inr row, s1)
      \<and> values_append w (range_opt opts) row = AppendRejected \<longrightarrow>
        fst (append_row w opts arg s) = Inl RemoteFailure
      \<and> keptSheet (snd (append_row w opts arg s)) = keptSheet s"
    using k [of "Inr row"] by (auto simp: append_rejected)
  have c: "normalizeInputData w opts arg s = (Inl e, s1) \<longrightarrow>
        fst (append_row w opts arg s) = Inl e
      \<and> keptSheet (snd (append_row w opts arg s)) = keptSheet s"
    using k [of "Inl e"] by (auto simp: append_failed_input)
  from a b c show ?thesis by blast
qed

lemma trim_no_leading_space: "is_space c \<Longrightarrow> trim v \<noteq> Str (c # rest)"
proof (cases v)
  case (Str s)
  assume c: "is_space c"
  show ?thesis
  proof
    assume "trim v = Str (c # rest)"
    then have eq: "join_words (ws_words s) = c # rest"
      using Str by (simp add: js_trim_replace_ws collapse_ws_def)
    then have "ws_words s \<noteq> []" by auto
    then have "\<not> is_space (hd (join_words (ws_words s)))"
      using join_words_ends [OF _ good_ws_words] by blast
    then show False using eq c by simp
  qed
qed simp_all

lemma normalize_object_ok:
  "normalizeInputData w opts (InputRowObject obj) s = (Inr row, s1) \<Longrightarrow>
   \<exists>cols. columns w opts s = (Inr cols, s1)
     \<and> row = map (sanitize opts)
               (map (find_entry w (map (\<lambda>(key, val). (toLowerCase w key, val)) obj)) cols)"
  by (auto simp: normalize_object simp del: map_map split: prod.splits sum.splits)

lemma example_append_array:
  "append_row (example_world u) example_options (InputRowArray row) s =
     (if updated_some u then Inr u else Inl FailedToSave,
      s\<lparr>calls := calls s @ [ValuesAppend (js ''Sheet1'') row], keptSheet := Empty\<rparr>)"
  using append_resolved [OF normalize_array, of "example_world u" example_options row u s]
  by (simp add: example_range example_world_def)

lemma offline_append_array:
  "append_row offline_world example_options (InputRowArray row) s =
     (Inl RemoteFailure, s\<lparr>calls := calls s @ [ValuesAppend (js ''Sheet1'') row]\<rparr>)"
  using append_rejected [OF normalize_array, of offline_world example_options row s]
  by (simp add: example_range offline_world_def)

lemma offline_columns_new:
  "columns offline_world example_options (new_gsheet False) =
     (Inl RemoteFailure, (new_gsheet False)\<lparr>calls := [ValuesGet (js ''Sheet1!A1:ZZZ1'')]\<rparr>)"
  by (simp add: columns_empty new_gsheet_False getColumns_empty_fst getColumns_empty_snd
      getSheet_fst example_header_range offline_world_def)

theorem append_zero_rows_counterexample:
  "keptSheet settled_gsheet = Settled example_grid
   \<and> fst (append_row (example_world (Some 0)) example_options
            (InputRowArray [Str (js ''Bob''), Str (js ''bob@x.com'')]) settled_gsheet)
       = Inl FailedToSave
   \<and> keptSheet (snd (append_row (example_world (Some 0)) example_options
            (InputRowArray [Str (js ''Bob''), Str (js ''bob@x.com'')]) settled_gsheet))
       = Empty"
  by (simp add: example_append_array settled_gsheet_eq)

theorem append_resets_grid_on_response_witness:
  "keptSheet (snd (append_row (example_world (Some 1)) example_options
            (InputRowArray [Str (js ''Bob'')]) settled_gsheet)) = Empty
   \<and> fst (append_row (example_world (Some 1)) example_options
            (InputRowArray [Str (js ''Bob'')]) settled_gsheet) = Inr (Some 1)
   \<and> calls (snd (rows (example_world None) example_options
        (snd (append_row (example_world (Some 1)) example_options
            (InputRowArray [Str (js ''Bob'')]) settled_gsheet))))
       = [ValuesGet (js ''Sheet1''), ValuesAppend (js ''Sheet1'') [Str (js ''Bob'')],
          ValuesGet (js ''Sheet1'')]
   \<and> fst (append_row offline_world example_options
            (InputRowArray [Str (js ''Bob'')]) settled_gsheet) = Inl RemoteFailure
   \<and> keptSheet (snd (append_row offline_world example_options
            (InputRowArray [Str (js ''Bob'')]) settled_gsheet)) = Settled example_grid
   \<and> fst (append_row offline_world example_options
            (InputRowObject [(js ''name'', Str (js ''Bob''))]) (new_gsheet False))
       = Inl RemoteFailure
   \<and> keptSheet (snd (append_row offline_world example_options
            (InputRowObject [(js ''name'', Str (js ''Bob''))]) (new_gsheet False))) = Empty"
proof -
  let ?row = "[Str (js ''Bob'')]"
  let ?obj = "[(js ''name'', Str (js ''Bob''))]"
  have n1: "normalizeInputData (example_world (Some 1)) example_options (InputRowArray ?row)
      settled_gsheet = (Inr ?row, settled_gsheet)"
    by (rule normalize_array)
  have v1: "values_append (example_world (Some 1)) (range_opt example_options) ?row
      = AppendResolved (Some 1)"
    by (simp add: example_world_def)
  have n2: "normalizeInputData offline_world example_options (InputRowArray ?row)
      settled_gsheet = (Inr ?row, settled_gsheet)"
    by (rule normalize_array)
  have v2: "values_append offline_world (range_opt example_options) ?row = AppendRejected"
    by (simp add: offline_world_def)
  have n3: "normalizeInputData offline_world example_options (InputRowObject ?obj)
      (new_gsheet False)
      = (Inl RemoteFailure, (new_gsheet False)\<lparr>calls := [ValuesGet (js ''Sheet1!A1:ZZZ1'')]\<rparr>)"
    by (simp add: normalize_object offline_columns_new)
  have c1: "calls (snd (append_row (example_world (Some 1)) example_options
            (InputRowArray ?row) settled_gsheet))
      = [ValuesGet (js ''Sheet1''), ValuesAppend (js ''Sheet1'') ?row]"
    by (simp add: example_append_array settled_gsheet_eq)
  show ?thesis
    using append_resets_grid_on_response
      [of "example_world (Some 1)" example_options "InputRowArray ?row" settled_gsheet
          ?row settled_gsheet "Some 1" "example_world None"]
      append_resets_grid_on_response
      [of offline_world example_options "InputRowArray ?row" settled_gsheet
          ?row settled_gsheet]
      append_resets_grid_on_response
      [of offline_world example_options "InputRowObject ?obj" "new_gsheet False"
          _ "(new_gsheet False)\<lparr>calls := [ValuesGet (js ''Sheet1!A1:ZZZ1'')]\<rparr>" _ _
          RemoteFailure]
      n1 v1 n2 v2 n3 c1
    by (simp add: example_range settled_gsheet_eq new_gsheet_False)
qed

text \<open>
  C2, as amended. For an input given as a key-to-value mapping, the row handed to the
  remote append call is the image under the configured sanitize function of the values
  resolved for the columns. For an input given as a positional row array, the array is
  handed to the remote append call as it is, without sanitizing.
\<close>

theorem append_sanitizes_mapping_input:
  "(normalizeInputData w opts (InputRowObject obj) s = (Inr row, s1) \<longrightarrow>
      calls (snd (append_row w opts (InputRowObject obj) s))
        = calls s1 @ [ValuesAppend (range_opt opts) row]
      \<and> (\<exists>resolved. row = map (sanitize opts) resolved))
   \<and> calls (snd (append_row w opts (InputRowArray cells) s))
       = calls s @ [ValuesAppend (range_opt opts) cells]"
proof -
  have a: "normalizeInputData w opts (InputRowObject obj) s = (Inr row, s1) \<longrightarrow>
      calls (snd (append_row w opts (InputRowObject obj) s))
        = calls s1 @ [ValuesAppend (range_opt opts) row]
      \<and> (\<exists>resolved. row = map (sanitize opts) resolved)"
  proof
    assume h: "normalizeInputData w opts (InputRowObject obj) s = (Inr row, s1)"
    have "\<exists>resolved. row = map (sanitize opts) resolved"
      using normalize_object_ok [OF h] by blast
    then show "calls (snd (append_row w opts (InputRowObject obj) s))
        = calls s1 @ [ValuesAppend (range_opt opts) row]
      \<and> (\<exists>resolved. row = map (sanitize opts) resolved)"
      using append_calls [OF h] by simp
  qed
  have b: "calls (snd (append_row w opts (InputRowArray cells) s))
       = calls s @ [ValuesAppend (range_opt opts) cells]"
    by (rule append_calls [OF normalize_array])
  from a b show ?thesis by blast
qed

theorem append_array_unsanitized_counterexample:
  "calls (snd (append_row (example_world (Some 1)) example_options
            (InputRowArray [Str (js ''  a '')]) (new_gsheet False)))
     = [ValuesAppend (js ''Sheet1'') [Str (js ''  a '')]]
   \<and> map (sanitize example_options) [Str (js ''  a '')] = [Str (js ''a'')]
   \<and> Str (js ''  a '') \<notin> range (sanitize example_options)"
proof -
  have a: "calls (snd (append_row (example_world (Some 1)) example_options
            (InputRowArray [Str (js ''  a '')]) (new_gsheet False)))
     = [ValuesAppend (js ''Sheet1'') [Str (js ''  a '')]]"
    by (simp add: example_append_array new_gsheet_False)
  have s: "sanitize example_options = trim"
    by (simp add: example_options_def default_options_def)
  have b: "trim (Str (js ''  a '')) = Str (js ''a'')"
    by (simp add: js_def js_trim_def is_space_def)
  have "js ''  a '' = 0x20 # js '' a ''" by (simp add: js_def)
  then have c: "Str (js ''  a '') \<notin> range trim"
    using trim_no_leading_space [OF is_space_20] by (metis rangeE)
  from a b c show ?thesis unfolding s by simp
qed

lemma example_columns_new:
  "columns (example_world u) example_options (new_gsheet False) =
     (Inr [js ''Name'', js ''Email''],
      \<lparr>keptSheet = Empty, keptColumns = Settled [js ''Name'', js ''Email''],
       calls = [ValuesGet (js ''Sheet1!A1:ZZZ1'')]\<rparr>)"
  by (simp add: columns_empty new_gsheet_False getColumns_empty_fst getColumns_empty_snd
      getSheet_fst example_header_range example_get_header example_extract)

lemma ascii_lower_examples:
  "ascii_lower (js ''email'') = js ''email''"
  "ascii_lower (js ''Email'') = js ''email''"
  "ascii_lower (js ''Name'') = js ''name''"
  by (simp_all add: ascii_lower_def js_def)

lemma example_find_entry:
  "find_entry (example_world u) [(js ''email'', v)] (js ''Name'') = Undefined"
  "find_entry (example_world u) [(js ''email'', v)] (js ''Email'') = v"
proof -
  have l: "toLowerCase (example_world u) = ascii_lower" by (simp add: example_world_def)
  have ne: "js ''email'' \<noteq> js ''name''" by (simp add: js_def)
  show "find_entry (example_world u) [(js ''email'', v)] (js ''Name'') = Undefined"
    using ne by (simp add: find_entry_def l ascii_lower_examples)
  show "find_entry (example_world u) [(js ''email'', v)] (js ''Email'') = v"
    by (simp add: find_entry_def l ascii_lower_examples)
qed

lemma trim_address: "js_trim (replace_ws (js ''x@y.com'')) = js ''x@y.com''"
  by code_simp

lemma example_normalize_object:
  "normalizeInputData (example_world u) example_options
     (InputRowObject [(js ''email'', Str (js ''x@y.com''))]) (new_gsheet False) =
     (Inr [Undefined, Str (js ''x@y.com'')],
      \<lparr>keptSheet = Empty, keptColumns = Settled [js ''Name'', js ''Email''],
       calls = [ValuesGet (js ''Sheet1!A1:ZZZ1'')]\<rparr>)"
proof -
  have l: "toLowerCase (example_world u) = ascii_lower" by (simp add: example_world_def)
  have s: "sanitize example_options = trim"
    by (simp add: example_options_def default_options_def)
  show ?thesis
    by (simp add: normalize_object example_columns_new l ascii_lower_examples
        example_find_entry s trim_address)
qed

theorem append_sanitizes_mapping_input_witness:
  "normalizeInputData (example_world (Some 1)) example_options
     (InputRowObject [(js ''email'', Str (js ''x@y.com''))]) (new_gsheet False) =
     (Inr [Undefined, Str (js ''x@y.com'')],
      \<lparr>keptSheet = Empty, keptColumns = Settled [js ''Name'', js ''Email''],
       calls = [ValuesGet (js ''Sheet1!A1:ZZZ1'')]\<rparr>)
   \<and> calls (snd (append_row (example_world (Some 1)) example_options
        (InputRowObject [(js ''email'', Str (js ''x@y.com''))]) (new_gsheet False)))
       = [ValuesGet (js ''Sheet1!A1:ZZZ1''),
          ValuesAppend (js ''Sheet1'') [Undefined, Str (js ''x@y.com'')]]
   \<and> (\<exists>resolved. [Undefined, Str (js ''x@y.com'')] = map trim resolved)
   \<and> calls (snd (append_row (example_world (Some 1)) example_options
        (InputRowArray [Str (js ''  a '')]) (new_gsheet False)))
       = [ValuesAppend (js ''Sheet1'') [Str (js ''  a '')]]"
proof -
  have s: "sanitize example_options = trim"
    by (simp add: example_options_def default_options_def)
  show ?thesis
    using append_sanitizes_mapping_input
      [of "example_world (Some 1)" example_options "[(js ''email'', Str (js ''x@y.com''))]"
          "new_gsheet False" "[Undefined, Str (js ''x@y.com'')]"
          "\<lparr>keptSheet = Empty, keptColumns = Settled [js ''Name'', js ''Email''],
            calls = [ValuesGet (js ''Sheet1!A1:ZZZ1'')]\<rparr>" "[Str (js ''  a '')]"]
      example_normalize_object [of "Some 1"]
    by (simp add: example_range s new_gsheet_False)
qed

text \<open>
  C3, as amended. For an input given as a key-to-value mapping, \<open>append_row\<close> resolves the
  column names with \<open>columns\<close> and hands to the remote append call a row with one cell
  for each column, in the order of the columns: the sanitized value of the first entry of
  the mapping whose lower-cased key equals the lower-cased column name, and the sanitized
  \<^verbatim>\<open>undefined\<close> when no key matches. The default sanitize function leaves
  \<^verbatim>\<open>undefined\<close> as it is, so an unmatched column yields \<^verbatim>\<open>undefined\<close>, not an
  empty string: with the columns Name and Email and the input \<^verbatim>\<open>{email: "x@y.com"}\<close> the
  row is \<^verbatim>\<open>[undefined, "x@y.com"]\<close>.
\<close>

theorem append_mapping_builds_row:
  assumes "columns w opts s = (Inr cols, s1)"
  shows "(\<exists>row. normalizeInputData w opts (InputRowObject obj) s = (Inr row, s1)
      \<and> calls (snd (append_row w opts (InputRowObject obj) s))
          = calls s1 @ [ValuesAppend (range_opt opts) row]
      \<and> length row = length cols
      \<and> (\<forall>i<length cols.
            row ! i =
              sanitize opts
                (case find (\<lambda>(key, val). toLowerCase w key = toLowerCase w (cols ! i)) obj of
                   None \<Rightarrow> Undefined
                 | Some (key, val) \<Rightarrow> val)))
    \<and> trim Undefined = Undefined
    \<and> fst (normalizeInputData (example_world u) example_options
         (InputRowObject [(js ''email'', Str (js ''x@y.com''))]) (new_gsheet False))
        = Inr [Undefined, Str (js ''x@y.com'')]"
proof -
  let ?row = "map (sanitize opts)
      (map (find_entry w (map (\<lambda>(key, val). (toLowerCase w key, val)) obj)) cols)"
  have n: "normalizeInputData w opts (InputRowObject obj) s = (Inr ?row, s1)"
    using assms by (simp add: normalize_object)
  have c: "calls (snd (append_row w opts (InputRowObject obj) s))
          = calls s1 @ [ValuesAppend (range_opt opts) ?row]"
    by (rule append_calls [OF n])
  have l: "length ?row = length cols" by simp
  have i: "\<forall>i<length cols.
            ?row ! i =
              sanitize opts
                (case find (\<lambda>(key, val). toLowerCase w key = toLowerCase w (cols ! i)) obj of
                   None \<Rightarrow> Undefined
                 | Some (key, val) \<Rightarrow> val)"
    by (simp add: find_entry_lower)
  have e: "fst (normalizeInputData (example_world u) example_options
         (InputRowObject [(js ''email'', Str (js ''x@y.com''))]) (new_gsheet False))
        = Inr [Undefined, Str (js ''x@y.com'')]"
    by (simp add: example_normalize_object)
  from n c l i have "\<exists>row. normalizeInputData w opts (InputRowObject obj) s = (Inr row, s1)
      \<and> calls (snd (append_row w opts (InputRowObject obj) s))
          = calls s1 @ [ValuesAppend (range_opt opts) row]
      \<and> length row = length cols
      \<and> (\<forall>i<length cols.
            row ! i =
              sanitize opts
                (case find (\<lambda>(key, val). toLowerCase w key = toLowerCase w (cols ! i)) obj of
                   None \<Rightarrow> Undefined
                 | Some (key, val) \<Rightarrow> val))"
    by blast
  then show ?thesis using e by simp
qed

theorem append_mapping_builds_row_witness:
  "columns (example_world (Some 1)) example_options settled_gsheet
     = (Inr [js ''Name'', js ''Email''],
        settled_gsheet\<lparr>keptColumns := Settled [js ''Name'', js ''Email'']\<rparr>)
   \<and> (\<exists>row. normalizeInputData (example_world (Some 1)) example_options
          (InputRowObject [(js ''NAME'', Str (js '' Bob ''))]) settled_gsheet
        = (Inr row, settled_gsheet\<lparr>keptColumns := Settled [js ''Name'', js ''Email'']\<rparr>)
      \<and> length row = 2
      \<and> row ! 0 = Str (js ''Bob'') \<and> row ! 1 = Undefined)"
proof -
  let ?w = "example_world (Some 1)"
  have l: "toLowerCase ?w = ascii_lower" by (simp add: example_world_def)
  have s: "sanitize example_options = trim"
    by (simp add: example_options_def default_options_def)
  have x: "extract_columns example_options example_grid = Inr [js ''Name'', js ''Email'']"
    unfolding example_grid_def by (rule example_extract)
  have c: "columns ?w example_options settled_gsheet
     = (Inr [js ''Name'', js ''Email''],
        settled_gsheet\<lparr>keptColumns := Settled [js ''Name'', js ''Email'']\<rparr>)"
    by (simp add: columns_empty settled_gsheet_eq getColumns_settled x)
  have a: "ascii_lower (js ''NAME'') = js ''name''" by (simp add: ascii_lower_def js_def)
  have ne: "js ''name'' \<noteq> js ''email''" by (simp add: js_def)
  have t: "js_trim (replace_ws (js '' Bob '')) = js ''Bob''"
    by code_simp
  obtain row where n: "normalizeInputData ?w example_options
          (InputRowObject [(js ''NAME'', Str (js '' Bob ''))]) settled_gsheet
        = (Inr row, settled_gsheet\<lparr>keptColumns := Settled [js ''Name'', js ''Email'']\<rparr>)"
    and len: "length row = length [js ''Name'', js ''Email'']"
    and cells: "\<forall>i<length [js ''Name'', js ''Email''].
            row ! i =
              sanitize example_options
                (case find (\<lambda>(key, val). toLowerCase ?w key
                        = toLowerCase ?w ([js ''Name'', js ''Email''] ! i))
                      [(js ''NAME'', Str (js '' Bob ''))] of
                   None \<Rightarrow> Undefined
                 | Some (key, val) \<Rightarrow> val)"
    using append_mapping_builds_row [OF c, of "[(js ''NAME'', Str (js '' Bob ''))]"] by blast
  have r0: "row ! 0 = Str (js ''Bob'')"
    using cells [rule_format, of 0] by (simp add: l s a t ascii_lower_examples)
  have r1: "row ! 1 = Undefined"
    using cells [rule_format, of 1] ne by (simp add: l s a ascii_lower_examples)
  from c n len r0 r1 show ?thesis by simp
qed

theorem append_by_object_counterexample:
  "fst (columns (example_world (Some 1)) example_options (new_gsheet False))
     = Inr [js ''Name'', js ''Email'']
   \<and> calls (snd (append_row (example_world (Some 1)) example_options
        (InputRowObject [(js ''email'', Str (js ''x@y.com''))]) (new_gsheet False)))
       = [ValuesGet (js ''Sheet1!A1:ZZZ1''),
          ValuesAppend (js ''Sheet1'') [Undefined, Str (js ''x@y.com'')]]
   \<and> [Undefined, Str (js ''x@y.com'')] \<noteq> [Str (js ''''), Str (js ''x@y.com'')]"
  using append_calls [OF example_normalize_object, of "Some 1"]
  by (simp add: example_columns_new example_range)

section \<open>Histories of an instance\<close>

lemma run_Nil: "run opts [] s = s"
  by (simp add: run_def)

lemma run_Cons: "run opts (a # history) s = run opts history (perform opts a s)"
  by (simp add: run_def)

lemma refresh_keptColumns: "keptColumns (refresh s) = keptColumns s"
  by (simp add: refresh_def)

lemma refresh_calls: "calls (refresh s) = calls s"
  by (simp add: refresh_def)

lemma tick_keptColumns: "keptColumns (keepFresh_tick w opts s) = keptColumns s"
  using getSheet_snd [of w "range_opt opts" s]
  by (auto simp: keepFresh_tick_def keeper_tick_def set_keptSheet_def
      split: prod.splits sum.splits)

lemma tick_calls:
  "calls (keepFresh_tick w opts s) = calls s @ [ValuesGet (range_opt opts)]"
  using getSheet_snd [of w "range_opt opts" s]
  by (auto simp: keepFresh_tick_def keeper_tick_def set_keptSheet_def
      split: prod.splits sum.splits)

lemma append_keptColumns:
  "keptColumns (snd (append_row w opts arg s)) = keptColumns (snd (normalizeInputData w opts arg s))"
proof (cases "normalizeInputData w opts arg s")
  case (Pair r s1)
  show ?thesis
  proof (cases r)
    case (Inl e)
    then show ?thesis using Pair by (simp add: append_failed_input)
  next
    case (Inr row)
    then show ?thesis using Pair
      by (cases "values_append w (range_opt opts) row")
         (simp_all add: append_rejected append_resolved)
  qed
qed

lemma new_gsheet_keptColumns: "keptColumns (new_gsheet preload) = Empty"
  by (simp add: new_gsheet_def refresh_def Let_def)

subsection \<open>No header row\<close>

lemma extract_columns_zero:
  "headerRows opts = 0 \<Longrightarrow> extract_columns opts g = Inl (HeaderRowEmpty 0)"
  by (simp add: extract_columns_def at_index_def)

lemma getColumns_zero: "headerRows opts = 0 \<Longrightarrow> isl (fst (getColumns w opts s))"
  by (cases "keptSheet s")
     (simp_all add: getColumns_settled getColumns_empty_fst extract_columns_zero split: sum.splits)

lemma columns_zero:
  assumes "headerRows opts = 0" "keptColumns s = Empty"
  shows "isl (fst (columns w opts s))" "keptColumns (snd (columns w opts s)) = Empty"
  using getColumns_zero [OF assms(1), of w s] assms(2)
  by (auto simp: columns_empty isl_def)

lemma data_zero:
  assumes "headerRows opts = 0" "keptColumns s = Empty"
  shows "isl (fst (data w opts s))" "keptColumns (snd (data w opts s)) = Empty"
proof -
  obtain r s1 where rs: "rows w opts s = (r, s1)" by (cases "rows w opts s")
  then have k: "keptColumns s1 = Empty"
    using rows_keptColumns [of w opts s] assms(2) by simp
  obtain c s2 where cs: "columns w opts s1 = (c, s2)" by (cases "columns w opts s1")
  then have "isl c" "keptColumns s2 = Empty"
    using columns_zero [OF assms(1) k, of w] by simp_all
  then show "isl (fst (data w opts s))" "keptColumns (snd (data w opts s)) = Empty"
    using rs cs k by (auto simp: data_def isl_def split: sum.splits)
qed

lemma normalize_keptColumns_zero:
  assumes "headerRows opts = 0" "keptColumns s = Empty"
  shows "keptColumns (snd (normalizeInputData w opts arg s)) = Empty"
  using assms columns_zero(2) [OF assms, of w]
  by (cases arg) (simp_all add: normalize_snd)

lemma perform_zero:
  assumes "headerRows opts = 0" "keptColumns s = Empty"
  shows "keptColumns (perform opts a s) = Empty"
proof (cases a)
  case (Pair w act)
  show ?thesis
    unfolding Pair using assms
    by (cases act)
       (simp_all add: columns_zero data_zero rows_keptColumns append_keptColumns
          normalize_keptColumns_zero refresh_keptColumns tick_keptColumns)
qed

lemma run_zero:
  "headerRows opts = 0 \<Longrightarrow> keptColumns s = Empty \<Longrightarrow> keptColumns (run opts history s) = Empty"
  by (induction history arbitrary: s) (simp_all add: run_Nil run_Cons perform_zero)

lemma rows_fst:
  "fst (rows w opts s) =
     (case keptSheet s of
        Settled g \<Rightarrow>
          Inr (filter (\<lambda>row. filter_opt opts (ArrayRow row))
                 (map (map (sanitize_text opts)) (js_slice (headerRows opts) g)))
      | Empty \<Rightarrow>
          (case values_get w (range_opt opts) of
             GetRejected \<Rightarrow> Inl RemoteFailure
           | GetResolved None \<Rightarrow> Inl NoDataFound
           | GetResolved (Some g) \<Rightarrow>
               Inr (filter (\<lambda>row. filter_opt opts (ArrayRow row))
                      (map (map (sanitize_text opts)) (js_slice (headerRows opts) g)))))"
  by (cases "keptSheet s")
     (simp_all add: rows_settled rows_empty_fst getSheet_fst
        split: get_outcome.splits option.splits)

text \<open>
  C7. With \<open>headerRows = 0\<close>, in every state that an instance reaches from its
  construction by calls of its methods and firings of its timer, \<open>columns\<close> fails and
  \<open>data\<close> fails. \<open>rows\<close> is not restricted: it returns every row of the grid, sanitized and
  filtered, and fails only when the fetch of the grid fails.
\<close>

theorem no_header_rows_fails_columns_and_data:
  assumes "headerRows opts = 0"
  shows "isl (fst (columns w opts (run opts history (new_gsheet preload))))
     \<and> isl (fst (data w opts (run opts history (new_gsheet preload))))
     \<and> fst (rows w opts (run opts history (new_gsheet preload))) =
         (case keptSheet (run opts history (new_gsheet preload)) of
            Settled g \<Rightarrow>
              Inr (filter (\<lambda>row. filter_opt opts (ArrayRow row))
                     (map (map (sanitize_text opts)) g))
          | Empty \<Rightarrow>
              (case values_get w (range_opt opts) of
                 GetRejected \<Rightarrow> Inl RemoteFailure
               | GetResolved None \<Rightarrow> Inl NoDataFound
               | GetResolved (Some g) \<Rightarrow>
                   Inr (filter (\<lambda>row. filter_opt opts (ArrayRow row))
                          (map (map (sanitize_text opts)) g))))"
proof -
  let ?s = "run opts history (new_gsheet preload)"
  have k: "keptColumns ?s = Empty"
    by (rule run_zero [OF assms new_gsheet_keptColumns])
  have a: "isl (fst (columns w opts ?s))" by (rule columns_zero(1) [OF assms k])
  have b: "isl (fst (data w opts ?s))" by (rule data_zero(1) [OF assms k])
  have c: "fst (rows w opts ?s) =
         (case keptSheet ?s of
            Settled g \<Rightarrow>
              Inr (filter (\<lambda>row. filter_opt opts (ArrayRow row))
                     (map (map (sanitize_text opts)) g))
          | Empty \<Rightarrow>
              (case values_get w (range_opt opts) of
                 GetRejected \<Rightarrow> Inl RemoteFailure
               | GetResolved None \<Rightarrow> Inl NoDataFound
               | GetResolved (Some g) \<Rightarrow>
                   Inr (filter (\<lambda>row. filter_opt opts (ArrayRow row))
                          (map (map (sanitize_text opts)) g))))"
    using assms
    by (simp add: rows_fst js_slice_def split: keeper.splits get_outcome.splits option.splits)
  from a b c show ?thesis by blast
qed

subsection \<open>The columns Keeper once settled\<close>

lemma fetches_header_snoc_range:
  "fetches (header_range opts) (cs @ [ValuesGet (range_opt opts)]) = fetches (header_range opts) cs"
  using header_range_neq [of opts] by (auto simp: fetches_def)

lemma fetches_snoc_append:
  "fetches rng (cs @ [ValuesAppend r row]) = fetches rng cs"
  by (simp add: fetches_def)

lemma normalize_settled:
  "keptColumns s = Settled cols \<Longrightarrow> snd (normalizeInputData w opts arg s) = s"
  by (cases arg) (simp_all add: normalize_snd columns_settled)

lemma normalize_settled_ok:
  "keptColumns s = Settled cols \<Longrightarrow> \<exists>row. normalizeInputData w opts arg s = (Inr row, s)"
  by (cases arg) (simp_all add: normalize_array normalize_object columns_settled)

lemma append_settled_calls:
  assumes "keptColumns s = Settled cols"
  shows "fetches (header_range opts) (calls (snd (append_row w opts arg s)))
     = fetches (header_range opts) (calls s)"
proof -
  obtain row where n: "normalizeInputData w opts arg s = (Inr row, s)"
    using normalize_settled_ok [OF assms] by blast
  show ?thesis by (simp add: append_calls [OF n] fetches_snoc_append)
qed

lemma append_settled_keptColumns:
  "keptColumns s = Settled cols \<Longrightarrow> keptColumns (snd (append_row w opts arg s)) = Settled cols"
  by (simp add: append_keptColumns normalize_settled)

lemma data_settled:
  assumes "keptColumns s = Settled cols"
  shows "data w opts s =
     (case rows w opts s of
        (Inl e, s1) \<Rightarrow> (Inl e, s1)
      | (Inr rs, s1) \<Rightarrow>
          (Inr (filter (\<lambda>obj. filter_opt opts (ObjectRow obj))
                  (map (\<lambda>row. reduce_row cols 0 row []) rs)), s1))"
proof -
  obtain r s1 where rs: "rows w opts s = (r, s1)" by (cases "rows w opts s")
  then have "keptColumns s1 = Settled cols"
    using rows_keptColumns [of w opts s] assms by simp
  then have "columns w opts s1 = (Inr cols, s1)" by (rule columns_settled)
  then show ?thesis using rs by (simp add: data_def split: sum.splits)
qed

lemma data_settled_snd:
  "keptColumns s = Settled cols \<Longrightarrow> snd (data w opts s) = snd (rows w opts s)"
  by (simp add: data_settled split: prod.splits sum.splits)

lemma rows_header_fetches:
  "fetches (header_range opts) (calls (snd (rows w opts s))) = fetches (header_range opts) (calls s)"
  by (cases "keptSheet s") (simp_all add: rows_calls fetches_header_snoc_range)

lemma perform_settled:
  assumes "keptColumns s = Settled cols"
  shows "keptColumns (perform opts a s) = Settled cols"
    and "fetches (header_range opts) (calls (perform opts a s)) = fetches (header_range opts) (calls s)"
proof -
  obtain w act where a: "a = (w, act)" by (cases a)
  show "keptColumns (perform opts a s) = Settled cols"
    unfolding a using assms
    by (cases act)
       (simp_all add: columns_settled rows_keptColumns data_settled_snd
          append_settled_keptColumns refresh_keptColumns tick_keptColumns)
  show "fetches (header_range opts) (calls (perform opts a s)) = fetches (header_range opts) (calls s)"
    unfolding a using assms
    by (cases act)
       (simp_all add: columns_settled rows_header_fetches data_settled_snd
          append_settled_calls refresh_calls tick_calls fetches_header_snoc_range)
qed

lemma run_settled:
  "keptColumns s = Settled cols \<Longrightarrow>
   keptColumns (run opts history s) = Settled cols
   \<and> fetches (header_range opts) (calls (run opts history s)) = fetches (header_range opts) (calls s)"
proof (induction history arbitrary: s)
  case Nil
  then show ?case by (simp add: run_Nil)
next
  case (Cons a history)
  show ?case
    using Cons.IH [OF perform_settled(1) [OF Cons.prems, of opts a]]
      perform_settled(2) [OF Cons.prems, of opts a]
    by (simp add: run_Cons)
qed

text \<open>
  C10. Neither \<open>refresh\<close> nor \<open>append_row\<close> changes the columns Keeper. Once the columns
  Keeper is settled with a header list, it holds that list after every history of method
  calls and timer firings: \<open>columns\<close> returns the list without changing the instance,
  \<open>data\<close> builds its objects with that list as keys, and no fetch of the header range is
  made during the history.
\<close>

theorem settled_columns_are_kept:
  assumes "keptColumns s = Settled cols"
  shows "keptColumns (refresh s) = Settled cols
     \<and> keptColumns (snd (append_row w opts arg s)) = Settled cols
     \<and> keptColumns (run opts history s) = Settled cols
     \<and> columns w opts (run opts history s) = (Inr cols, run opts history s)
     \<and> fetches (header_range opts) (calls (run opts history s))
         = fetches (header_range opts) (calls s)
     \<and> data w opts (run opts history s) =
         (case rows w opts (run opts history s) of
            (Inl e, s1) \<Rightarrow> (Inl e, s1)
          | (Inr rs, s1) \<Rightarrow>
              (Inr (filter (\<lambda>obj. filter_opt opts (ObjectRow obj))
                      (map (\<lambda>row. reduce_row cols 0 row []) rs)), s1))"
proof -
  have a: "keptColumns (refresh s) = Settled cols"
    using assms by (simp add: refresh_keptColumns)
  have b: "keptColumns (snd (append_row w opts arg s)) = Settled cols"
    by (rule append_settled_keptColumns [OF assms])
  have c: "keptColumns (run opts history s) = Settled cols"
    and d: "fetches (header_range opts) (calls (run opts history s))
         = fetches (header_range opts) (calls s)"
    using run_settled [OF assms] by simp_all
  have e: "columns w opts (run opts history s) = (Inr cols, run opts history s)"
    by (rule columns_settled [OF c])
  have f: "data w opts (run opts history s) =
         (case rows w opts (run opts history s) of
            (Inl e, s1) \<Rightarrow> (Inl e, s1)
          | (Inr rs, s1) \<Rightarrow>
              (Inr (filter (\<lambda>obj. filter_opt opts (ObjectRow obj))
                      (map (\<lambda>row. reduce_row cols 0 row []) rs)), s1))"
    by (rule data_settled [OF c])
  from a b c d e f show ?thesis by blast
qed

lemma example_grid_trimmed:
  "map (map (\<lambda>s. js_trim (replace_ws s))) example_grid = example_grid"
  by code_simp

lemma example_grid_sanitized:
  "sanitize opts = trim \<Longrightarrow> map (map (sanitize_text opts)) example_grid = example_grid"
proof -
  assume "sanitize opts = trim"
  then have "sanitize_text opts = (\<lambda>s. js_trim (replace_ws s))"
    by (auto simp: sanitize_text_def)
  then show ?thesis by (simp only: example_grid_trimmed)
qed

lemma no_header_options_simps:
  "headerRows no_header_options = 0"
  "range_opt no_header_options = js ''Sheet1''"
  "sanitize no_header_options = trim"
  "filter_opt no_header_options = noFilter"
  by (simp_all add: no_header_options_def example_options_def default_options_def)

theorem no_header_rows_fails_columns_and_data_witness:
  "headerRows no_header_options = 0
   \<and> isl (fst (columns (example_world None) no_header_options
        (run no_header_options [(example_world None, CallRows)] (new_gsheet False))))
   \<and> isl (fst (data (example_world None) no_header_options
        (run no_header_options [(example_world None, CallRows)] (new_gsheet False))))
   \<and> fst (rows (example_world None) no_header_options
        (run no_header_options [(example_world None, CallRows)] (new_gsheet False)))
       = Inr example_grid"
proof -
  let ?w = "example_world None"
  have r: "run no_header_options [(?w, CallRows)] (new_gsheet False)
      = \<lparr>keptSheet = Settled example_grid, keptColumns = Empty,
         calls = [ValuesGet (js ''Sheet1'')]\<rparr>"
    by (simp add: run_Cons run_Nil rows_empty_snd new_gsheet_False no_header_options_simps
        getSheet_fst example_get_grid)
  have f: "filter (\<lambda>row. noFilter (ArrayRow row)) example_grid = example_grid"
    by (simp add: noFilter_def)
  show ?thesis
    using no_header_rows_fails_columns_and_data
      [OF no_header_options_simps(1), of ?w "[(?w, CallRows)]" False]
    by (simp add: r no_header_options_simps example_grid_sanitized f)
qed

theorem settled_columns_are_kept_witness:
  "keptColumns (snd (columns (example_world None) example_options (new_gsheet False)))
     = Settled [js ''Name'', js ''Email'']
   \<and> keptColumns (run example_options
        [(example_world (Some 1), CallAppend (InputRowArray [Str (js ''Bob'')])),
         (example_world None, CallRefresh), (offline_world, TimerTick)]
        (snd (columns (example_world None) example_options (new_gsheet False))))
       = Settled [js ''Name'', js ''Email'']
   \<and> fst (columns offline_world example_options (run example_options
        [(example_world (Some 1), CallAppend (InputRowArray [Str (js ''Bob'')])),
         (example_world None, CallRefresh), (offline_world, TimerTick)]
        (snd (columns (example_world None) example_options (new_gsheet False)))))
       = Inr [js ''Name'', js ''Email'']
   \<and> fetches (js ''Sheet1!A1:ZZZ1'') (calls (run example_options
        [(example_world (Some 1), CallAppend (InputRowArray [Str (js ''Bob'')])),
         (example_world None, CallRefresh), (offline_world, TimerTick)]
        (snd (columns (example_world None) example_options (new_gsheet False)))))
       = 1"
proof -
  let ?s = "snd (columns (example_world None) example_options (new_gsheet False))"
  have k: "keptColumns ?s = Settled [js ''Name'', js ''Email'']"
    by (simp add: example_columns_new)
  have c: "fetches (js ''Sheet1!A1:ZZZ1'') (calls ?s) = 1"
    by (simp add: example_columns_new fetches_def)
  show ?thesis
    using settled_columns_are_kept [OF k, of offline_world example_options _
      "[(example_world (Some 1), CallAppend (InputRowArray [Str (js ''Bob'')])),
         (example_world None, CallRefresh), (offline_world, TimerTick)]"] k c
    by (simp add: example_header_range)
qed

section \<open>Row objects\<close>















end
